theory Spec2Isabelle
  imports Main "HOL-Library.Code_Target_Nat"
begin

section \<open>Bytes, exceptions, JSON values and the Python runtime\<close>

text \<open>
  A model of the two peers of the proxy, \<open>ship_proxy.py\<close> and \<open>offshore_server.py\<close>.
  Every coroutine is a function on the state it touches; an awaited call is a call that
  returns; an exception is a value of the result. A stream is the finite list of chunks
  its peer still sends before end-of-stream, so every loop over a stream ends. Printing to
  the console is not modelled.

  Python \<open>bytes\<close> are lists of 8-bit characters. Python \<open>str\<close> values are modelled
  by their UTF-8 bytes as well, so \<open>encode\<close> is the identity; \<open>decode\<close> can fail and
  belongs to the runtime below.
\<close>

type_synonym bytes = string

text \<open>
  The exceptions the two programs can meet. \<open>EOFError\<close> is what \<open>read_exact\<close> raises
  when the stream ends (the specification calls it LinkClosed); \<open>StructError\<close> is
  \<open>struct.error\<close>; \<open>OSError\<close> carries the message \<open>str(e)\<close> of a failed dial;
  \<open>ConnectionResetError\<close> is what \<open>writer.drain()\<close> raises on a lost connection.
\<close>

datatype error =
    EOFError
  | StructError
  | JSONDecodeError
  | UnicodeDecodeError
  | TypeError
  | AttributeError
  | KeyError
  | ValueError
  | OSError string
  | ClientError string
  | ConnectionResetError

text \<open>
  What \<open>json.loads\<close> can return and \<open>json.dumps\<close> accepts (floats are left out). A
  Python dict keeps insertion order, so an object is an association list.
\<close>

datatype json =
    JNull
  | JBool bool
  | JInt int
  | JStr string
  | JList "json list"
  | JObj "(string \<times> json) list"

type_synonym header = "(string \<times> json) list"

text \<open>
  The library functions the source calls but does not define are parameters of the model:
  \<open>json.dumps(h).encode()\<close>, \<open>json.loads(b.decode())\<close>, \<open>bytes.decode()\<close>,
  \<open>int(str)\<close>, \<open>repr\<close> of a container, and the outbound HTTP client of the Offshore
  peer (\<open>aiohttp\<close>: method, url, headers, body to status, headers, body, or an error).
\<close>

record runtime =
  json_dumps :: "json \<Rightarrow> bytes"
  json_loads :: "bytes \<Rightarrow> error + json"
  decode :: "bytes \<Rightarrow> error + string"
  py_int :: "string \<Rightarrow> error + int"
  py_repr :: "json \<Rightarrow> string"
  http_request :: "json \<Rightarrow> json \<Rightarrow> json \<Rightarrow> bytes \<Rightarrow> error + (int \<times> (string \<times> string) list \<times> bytes)"

definition CR :: char where "CR = CHR 0x0D"
definition LF :: char where "LF = CHR 0x0A"
definition CRLF :: string where "CRLF = [CR, LF]"

subsection \<open>Dictionaries\<close>

definition dict_get :: "('k \<times> 'v) list \<Rightarrow> 'k \<Rightarrow> 'v \<Rightarrow> 'v" where
  "dict_get d k dflt = (case map_of d k of None \<Rightarrow> dflt | Some v \<Rightarrow> v)"

definition dict_set :: "('k \<times> 'v) list \<Rightarrow> 'k \<Rightarrow> 'v \<Rightarrow> ('k \<times> 'v) list" where
  "dict_set d k v =
     (if map_of d k = None then d @ [(k, v)]
      else map (\<lambda>(k', v'). if k' = k then (k', v) else (k', v')) d)"

text \<open>\<open>x > 0\<close> for a JSON value \<open>x\<close>: only numbers (and bools) compare with an int.\<close>

fun py_gt_zero :: "json \<Rightarrow> error + bool" where
  "py_gt_zero (JInt i) = Inr (0 < i)"
| "py_gt_zero (JBool b) = Inr b"
| "py_gt_zero _ = Inl TypeError"

text \<open>A JSON value that passed \<open>x > 0\<close>, used as the byte count of \<open>read_exact\<close>.\<close>

fun py_count :: "json \<Rightarrow> nat" where
  "py_count (JInt i) = nat i"
| "py_count (JBool b) = (if b then 1 else 0)"
| "py_count _ = 0"

section \<open>The wire framing codec (both peers carry the same three functions)\<close>

subsection \<open>Stream readers\<close>

text \<open>
  A reader is the list of chunks the transport will still deliver before end-of-stream.
  \<open>reader.read(n)\<close> returns at most \<open>n\<close> bytes of the next chunk, and \<open>b''\<close> only at
  end-of-stream; a chunk may be shorter than what was asked for (a short read).
\<close>

type_synonym reader = "bytes list"

fun reader_read :: "reader \<Rightarrow> nat \<Rightarrow> bytes \<times> reader" where
  "reader_read [] n = ([], [])"
| "reader_read (c # cs) n =
     (if c = [] then reader_read cs n
      else (take n c, if drop n c = [] then cs else drop n c # cs))"

function read_exact_loop :: "reader \<Rightarrow> nat \<Rightarrow> bytes \<Rightarrow> (error + bytes) \<times> reader" where
  "read_exact_loop r n data =
     (if length data < n then
        (case reader_read r (n - length data) of
           (chunk, r') \<Rightarrow>
             if chunk = [] then (Inl EOFError, r')
             else read_exact_loop r' n (data @ chunk))
      else (Inr data, r))"
  by pat_completeness auto
termination
proof (relation "measure (\<lambda>(r, n, data). n - length data)")
  show "wf (measure (\<lambda>(r, n, data). n - length data))" by simp
next
  fix r :: reader and n :: nat and data x :: bytes and y :: reader
  assume "length data < n" and "x \<noteq> []"
  then show "((y, n, data @ x), (r, n, data)) \<in> measure (\<lambda>(r, n, data). n - length data)"
    by (cases x) auto
qed

declare read_exact_loop.simps [simp del]

definition read_exact :: "reader \<Rightarrow> nat \<Rightarrow> (error + bytes) \<times> reader" where
  "read_exact r n = read_exact_loop r n []"

subsection \<open>The 4-byte big-endian length prefix\<close>

text \<open>\<open>struct.pack('>I', n)\<close> raises \<open>struct.error\<close> unless \<open>0 \<le> n < 2^32\<close>.\<close>

definition pack_u32 :: "nat \<Rightarrow> error + bytes" where
  "pack_u32 n =
     (if n < 4294967296
      then Inr [char_of (n div 16777216 mod 256), char_of (n div 65536 mod 256),
                char_of (n div 256 mod 256), char_of (n mod 256)]
      else Inl StructError)"

definition unpack_u32 :: "bytes \<Rightarrow> nat" where
  "unpack_u32 b =
     of_char (b ! 0) * 16777216 + of_char (b ! 1) * 65536 + of_char (b ! 2) * 256 + of_char (b ! 3)"

section \<open>Connections\<close>

text \<open>
  One TCP connection as a pair of asyncio streams. \<open>rd\<close> is what the peer has sent and
  the transport has still to receive, chunk by chunk; \<open>buf\<close> is what has been received
  and not read yet (the buffer of the \<open>StreamReader\<close>); \<open>out\<close> is what has been
  written and delivered to the peer. \<open>closed\<close> says that the transport is closed or
  closing (\<open>StreamWriter.close()\<close> closes the whole transport, both directions;
  \<open>is_closing()\<close> reads the flag). \<open>gone\<close> says that the peer has closed its socket
  for good, so that what is written to it is answered by a reset. A peer that has only
  finished sending (it sent FIN) shows as an \<open>rd\<close> that has run out: this does not close
  the transport, and \<open>is_closing()\<close> stays false.

  The frames of the uplink and the lines of a client's request are read from \<open>rd\<close> as
  they come (\<open>read_message\<close>, \<open>reader_readline\<close>): neither program closes a connection
  while it reads frames or lines from it, so there it makes no difference when a byte
  arrived. \<open>buf\<close> matters for \<open>read\<close> on a connection that may be closed under the
  reader: the target's, in the Offshore bridge.
\<close>

record conn =
  rd :: reader
  buf :: bytes
  out :: bytes
  closed :: bool
  gone :: bool

definition fresh_conn :: "reader \<Rightarrow> conn" where
  "fresh_conn r = \<lparr>rd = r, buf = [], out = [], closed = False, gone = False\<rparr>"

text \<open>
  The transport receives the next chunk (\<open>data_received\<close>): it goes to the buffer. A
  closed transport receives nothing any more.
\<close>

definition conn_deliver :: "conn \<Rightarrow> conn" where
  "conn_deliver c =
     (if closed c then c
      else (case dropWhile (\<lambda>ch. ch = []) (rd c) of
              [] \<Rightarrow> c\<lparr>rd := []\<rparr>
            | ch # rest \<Rightarrow> c\<lparr>rd := rest, buf := buf c @ ch\<rparr>))"

text \<open>
  \<open>reader.read(n)\<close> returns at most \<open>n\<close> bytes of the buffer. When the buffer is empty
  it waits for the next chunk, and returns \<open>b''\<close> at end-of-stream: when the peer has
  finished sending, or when the transport has been closed (closing feeds end-of-stream to
  the reader, and what was in the buffer before can still be read).
\<close>

definition conn_read :: "conn \<Rightarrow> nat \<Rightarrow> bytes \<times> conn" where
  "conn_read c n =
     (let c' = (if buf c = [] then conn_deliver c else c)
      in (take n (buf c'), c'\<lparr>buf := drop n (buf c')\<rparr>))"

text \<open>
  \<open>writer.write(data)\<close> followed by \<open>drain()\<close> towards a client or a target. The
  clients and targets of the model take what is written to them.
\<close>

definition conn_write :: "conn \<Rightarrow> bytes \<Rightarrow> conn" where
  "conn_write c data = c\<lparr>out := out c @ data\<rparr>"

text \<open>\<open>writer.close()\<close> and \<open>wait_closed()\<close>.\<close>

definition conn_close :: "conn \<Rightarrow> conn" where
  "conn_close c = c\<lparr>closed := True\<rparr>"

text \<open>
  The connection is lost (\<open>connection_lost\<close> with an exception): the transport is
  closed, and the reader raises from now on, which every caller in the two programs treats
  like the end of the stream.
\<close>

definition conn_lost :: "conn \<Rightarrow> conn" where
  "conn_lost c = c\<lparr>rd := [], buf := [], closed := True\<rparr>"

section \<open>Reading and writing one frame\<close>

definition read_message :: "runtime \<Rightarrow> reader \<Rightarrow> (error + header \<times> bytes) \<times> reader" where
  "read_message rt r =
     (case read_exact r 4 of
        (Inl e, r1) \<Rightarrow> (Inl e, r1)
      | (Inr hdr, r1) \<Rightarrow>
          (case read_exact r1 (unpack_u32 hdr) of
             (Inl e, r2) \<Rightarrow> (Inl e, r2)
           | (Inr hjson, r2) \<Rightarrow>
               (case json_loads rt hjson of
                  Inl e \<Rightarrow> (Inl e, r2)
                | Inr (JObj header) \<Rightarrow>
                    (case py_gt_zero (dict_get header ''body_len'' (JInt 0)) of
                       Inl e \<Rightarrow> (Inl e, r2)
                     | Inr False \<Rightarrow> (Inr (header, []), r2)
                     | Inr True \<Rightarrow>
                         (case read_exact r2 (py_count (dict_get header ''body_len'' (JInt 0))) of
                            (Inl e, r3) \<Rightarrow> (Inl e, r3)
                          | (Inr body, r3) \<Rightarrow> (Inr (header, body), r3)))
                | Inr _ \<Rightarrow> (Inl AttributeError, r2))))"

text \<open>
  \<open>send_message\<close> on the writer of connection \<open>c\<close>. \<open>struct.pack\<close> is evaluated
  before the first \<open>write\<close>, so a header too long for the prefix writes nothing. The
  writes are followed by \<open>await writer.drain()\<close>: on a transport that is closed, or whose
  peer is gone, nothing reaches the peer, the connection is lost and \<open>drain\<close> raises
  \<open>ConnectionResetError\<close>.
\<close>

definition send_message :: "runtime \<Rightarrow> conn \<Rightarrow> header \<Rightarrow> bytes \<Rightarrow> error option \<times> conn" where
  "send_message rt c header body =
     (let hbytes = json_dumps rt (JObj header) in
      case pack_u32 (length hbytes) of
        Inl e \<Rightarrow> (Some e, c)
      | Inr p \<Rightarrow>
          if closed c \<or> gone c then (Some ConnectionResetError, conn_lost c)
          else (None, c\<lparr>out := out c @ p @ hbytes @ (if body \<noteq> [] then body else [])\<rparr>))"

subsection \<open>What a frame on the wire is\<close>

text \<open>The number of payload bytes a header declares, as \<open>read_message\<close> reads it.\<close>

definition payload_len :: "header \<Rightarrow> error + nat" where
  "payload_len h =
     (case py_gt_zero (dict_get h ''body_len'' (JInt 0)) of
        Inl e \<Rightarrow> Inl e
      | Inr False \<Rightarrow> Inr 0
      | Inr True \<Rightarrow> Inr (py_count (dict_get h ''body_len'' (JInt 0))))"

text \<open>
  The header's \<open>body_len\<close> equals the length of the payload, or is absent with an empty
  payload (Python's \<open>True == 1\<close> included).
\<close>

definition body_len_matches :: "header \<Rightarrow> bytes \<Rightarrow> bool" where
  "body_len_matches h p =
     (case map_of h ''body_len'' of
        None \<Rightarrow> p = []
      | Some (JInt n) \<Rightarrow> n = int (length p)
      | Some (JBool b) \<Rightarrow> length p = (if b then 1 else 0)
      | Some _ \<Rightarrow> False)"

text \<open>
  The bytes \<open>bs\<close> of a stream up to its end stop inside a frame: inside the length prefix,
  inside the header bytes, or inside the payload the decoded header declares.
\<close>

definition frame_truncated :: "runtime \<Rightarrow> bytes \<Rightarrow> bool" where
  "frame_truncated rt bs =
     (length bs < 4 \<or>
      (let hlen = unpack_u32 (take 4 bs) in
       length bs < 4 + hlen \<or>
       (case json_loads rt (take hlen (drop 4 bs)) of
          Inr (JObj h) \<Rightarrow>
            (case payload_len h of Inr n \<Rightarrow> length bs < 4 + hlen + n | Inl e \<Rightarrow> False)
        | _ \<Rightarrow> False)))"

text \<open>
  The bytes \<open>bs\<close> start with one whole frame of header \<open>h\<close> and payload \<open>b\<close>, followed by
  \<open>rest\<close>.
\<close>

definition whole_frame :: "runtime \<Rightarrow> bytes \<Rightarrow> header \<Rightarrow> bytes \<Rightarrow> bytes \<Rightarrow> bool" where
  "whole_frame rt bs h b rest =
     (4 \<le> length bs \<and>
      (let hlen = unpack_u32 (take 4 bs); hjson = take hlen (drop 4 bs) in
       4 + hlen \<le> length bs \<and>
       json_loads rt hjson = Inr (JObj h) \<and>
       payload_len h = Inr (length b) \<and>
       bs = take 4 bs @ hjson @ b @ rest))"


subsection \<open>Facts about readers used by the termination proofs\<close>

lemma reader_read_concat:
  "reader_read r n = (chunk, r') \<Longrightarrow> chunk @ concat r' = concat r"
  by (induction r n rule: reader_read.induct) (auto split: if_splits)

lemma reader_read_len: "reader_read r n = (chunk, r') \<Longrightarrow> length chunk \<le> n"
  by (induction r n rule: reader_read.induct) (auto split: if_splits)

lemma reader_read_eof:
  "reader_read r n = ([], r') \<Longrightarrow> 0 < n \<Longrightarrow> concat r = [] \<and> r' = []"
  by (induction r n rule: reader_read.induct) (auto split: if_splits)

lemma reader_read_shrinks:
  assumes "reader_read r n = (chunk, r')" and "chunk \<noteq> []"
  shows "length (concat r') < length (concat r)"
proof -
  have "length (concat r) = length chunk + length (concat r')"
    using reader_read_concat [OF assms(1)] by (metis length_append)
  with assms(2) show ?thesis by simp
qed

lemma concat_dropWhile_empty: "concat (dropWhile (\<lambda>ch. ch = []) r) = concat r"
  by (induction r) auto

lemma conn_deliver_size:
  "length (buf (conn_deliver c)) + length (concat (rd (conn_deliver c))) \<le>
   length (buf c) + length (concat (rd c))"
proof (cases "dropWhile (\<lambda>ch. ch = []) (rd c)")
  case Nil
  then show ?thesis by (simp add: conn_deliver_def del: dropWhile_eq_Nil_conv)
next
  case (Cons ch rest)
  have "concat (rd c) = ch @ concat rest"
    using concat_dropWhile_empty [of "rd c"] Cons by simp
  then show ?thesis using Cons by (simp add: conn_deliver_def)
qed

lemma conn_read_shrinks:
  assumes "conn_read c n = (chunk, c')" and "chunk \<noteq> []"
  shows "length (buf c') + length (concat (rd c')) < length (buf c) + length (concat (rd c))"
proof -
  define d where "d = (if buf c = [] then conn_deliver c else c)"
  have le: "length (buf d) + length (concat (rd d)) \<le> length (buf c) + length (concat (rd c))"
    unfolding d_def using conn_deliver_size [of c] by (cases "buf c = []") simp_all
  from assms(1) have ch: "chunk = take n (buf d)" and c': "c' = d\<lparr>buf := drop n (buf d)\<rparr>"
    by (simp_all add: conn_read_def Let_def d_def)
  from ch assms(2) have "length (drop n (buf d)) < length (buf d)"
    by (cases n) auto
  with le c' show ?thesis by simp
qed

section \<open>Python string helpers\<close>

definition digit_char :: "nat \<Rightarrow> char" where
  "digit_char d = char_of (48 + d)"

fun show_nat :: "nat \<Rightarrow> string" where
  "show_nat n = (if n < 10 then [digit_char n] else show_nat (n div 10) @ [digit_char (n mod 10)])"

declare show_nat.simps [simp del]

text \<open>\<open>str(i)\<close> for an int.\<close>

definition py_str_int :: "int \<Rightarrow> string" where
  "py_str_int i = (if i < 0 then CHR ''-'' # show_nat (nat (- i)) else show_nat (nat i))"

text \<open>What an f-string prints for a JSON value: \<open>str(v)\<close>.\<close>

definition py_str :: "runtime \<Rightarrow> json \<Rightarrow> string" where
  "py_str rt v =
     (case v of
        JStr s \<Rightarrow> s
      | JInt i \<Rightarrow> py_str_int i
      | JBool b \<Rightarrow> (if b then ''True'' else ''False'')
      | JNull \<Rightarrow> ''None''
      | _ \<Rightarrow> py_repr rt v)"


definition is_space :: "char \<Rightarrow> bool" where
  "is_space c = (let n = (of_char c :: nat) in (9 \<le> n \<and> n \<le> 13) \<or> (28 \<le> n \<and> n \<le> 32))"

definition py_strip :: "string \<Rightarrow> string" where
  "py_strip s = rev (dropWhile is_space (rev (dropWhile is_space s)))"





section \<open>Facts about the framing codec\<close>

lemma read_exact_loop_ok:
  "length data \<le> n \<Longrightarrow> n \<le> length data + length (concat r) \<Longrightarrow>
   \<exists>r'. read_exact_loop r n data = (Inr (data @ take (n - length data) (concat r)), r') \<and>
        concat r' = drop (n - length data) (concat r)"
proof (induction r n data rule: read_exact_loop.induct)
  case (1 r n data)
  show ?case
  proof (cases "length data < n")
    case False
    with "1.prems" show ?thesis by (simp add: read_exact_loop.simps [of r n data])
  next
    case True
    obtain chunk r1 where rd: "reader_read r (n - length data) = (chunk, r1)"
      by (cases "reader_read r (n - length data)")
    have cat: "chunk @ concat r1 = concat r" by (rule reader_read_concat [OF rd])
    have len: "length chunk \<le> n - length data" by (rule reader_read_len [OF rd])
    have ne: "chunk \<noteq> []"
    proof
      assume "chunk = []"
      with rd True have "concat r = []" using reader_read_eof [of r "n - length data" r1] by simp
      with "1.prems" True show False by simp
    qed
    have l1: "length (data @ chunk) \<le> n" using len True by simp
    have l2: "n \<le> length (data @ chunk) + length (concat r1)"
      using "1.prems"(2) cat [symmetric] by simp
    from "1.IH" [OF True rd [symmetric] ne l1 l2]
    obtain r' where step: "read_exact_loop r1 n (data @ chunk) =
          (Inr ((data @ chunk) @ take (n - length (data @ chunk)) (concat r1)), r')"
      and rest: "concat r' = drop (n - length (data @ chunk)) (concat r1)"
      by blast
    have t: "chunk @ take (n - length (data @ chunk)) (concat r1) = take (n - length data) (concat r)"
      using len by (simp add: cat [symmetric])
    have d: "drop (n - length (data @ chunk)) (concat r1) = drop (n - length data) (concat r)"
      using len by (simp add: cat [symmetric])
    have "read_exact_loop r n data = read_exact_loop r1 n (data @ chunk)"
      using True rd ne by (simp add: read_exact_loop.simps [of r n data])
    with step rest t d show ?thesis by simp
  qed
qed

lemma read_exact_loop_eof:
  "length data + length (concat r) < n \<Longrightarrow> read_exact_loop r n data = (Inl EOFError, [])"
proof (induction r n data rule: read_exact_loop.induct)
  case (1 r n data)
  from "1.prems" have lt: "length data < n" by simp
  obtain chunk r1 where rd: "reader_read r (n - length data) = (chunk, r1)"
    by (cases "reader_read r (n - length data)")
  have cat: "chunk @ concat r1 = concat r" by (rule reader_read_concat [OF rd])
  show ?case
  proof (cases "chunk = []")
    case True
    with rd lt have "r1 = []" using reader_read_eof [of r "n - length data" r1] by simp
    with True rd lt show ?thesis by (simp add: read_exact_loop.simps [of r n data])
  next
    case False
    have "length (data @ chunk) + length (concat r1) < n"
      using "1.prems" cat [symmetric] by simp
    from "1.IH" [OF lt rd [symmetric] False this]
    show ?thesis using lt rd False by (simp add: read_exact_loop.simps [of r n data])
  qed
qed

lemma read_exact_ok:
  "n \<le> length (concat r) \<Longrightarrow>
   \<exists>r'. read_exact r n = (Inr (take n (concat r)), r') \<and> concat r' = drop n (concat r)"
  using read_exact_loop_ok [of "[]" n r] by (simp add: read_exact_def)

lemma read_exact_eof:
  "length (concat r) < n \<Longrightarrow> read_exact r n = (Inl EOFError, [])"
  using read_exact_loop_eof [of "[]" r n] by (simp add: read_exact_def)

text \<open>Whatever the chunking, \<open>read_exact\<close> is decided by the bytes left in the stream.\<close>

lemma read_exact_cases:
  obtains (ok) r' where "n \<le> length (concat r)" "read_exact r n = (Inr (take n (concat r)), r')"
      "concat r' = drop n (concat r)"
  | (eof) "length (concat r) < n" "read_exact r n = (Inl EOFError, [])"
proof (cases "n \<le> length (concat r)")
  case True
  with read_exact_ok [OF True] ok show ?thesis by blast
next
  case False
  then have "length (concat r) < n" by simp
  with read_exact_eof [OF this] eof show ?thesis by blast
qed

lemma radix256_join:
  fixes n a b c m0 m1 m2 :: nat
  assumes "n = a * 256 + m0" and "a = b * 256 + m1" and "b = c * 256 + m2"
  shows "c * 16777216 + m2 * 65536 + m1 * 256 + m0 = n"
  using assms by simp

lemma radix256_split:
  fixes n :: nat
  shows "n div 16777216 * 16777216 + n div 65536 mod 256 * 65536 + n div 256 mod 256 * 256 + n mod 256 = n"
proof -
  have d2: "n div 65536 = n div 256 div 256" and d3: "n div 16777216 = n div 65536 div 256"
    by (simp_all add: div_mult2_eq)
  have e1: "n = n div 256 * 256 + n mod 256" by simp
  have e2: "n div 256 = n div 65536 * 256 + n div 256 mod 256" unfolding d2 by simp
  have e3: "n div 65536 = n div 16777216 * 256 + n div 65536 mod 256" unfolding d3 by simp
  show ?thesis by (rule radix256_join [OF e1 e2 e3])
qed

lemma unpack_pack: "pack_u32 n = Inr p \<Longrightarrow> unpack_u32 p = n \<and> length p = 4"
  unfolding pack_u32_def unpack_u32_def
  by (auto simp: radix256_split split: if_splits)

lemma payload_len_matches:
  "body_len_matches h p \<Longrightarrow> payload_len h = Inr (length p)"
  by (auto simp: body_len_matches_def payload_len_def dict_get_def
           split: option.splits json.splits if_splits bool.splits)

text \<open>\<open>read_message\<close> on a stream that starts with a whole frame.\<close>

lemma read_message_whole:
  assumes "whole_frame rt (concat r) h b rest"
  shows "\<exists>r'. read_message rt r = (Inr (h, b), r') \<and> concat r' = rest"
proof -
  let ?bs = "concat r"
  let ?hlen = "unpack_u32 (take 4 ?bs)"
  let ?hj = "take ?hlen (drop 4 ?bs)"
  from assms have l4: "4 \<le> length ?bs" and lh: "4 + ?hlen \<le> length ?bs"
    and js: "json_loads rt ?hj = Inr (JObj h)" and pl: "payload_len h = Inr (length b)"
    and eq: "?bs = take 4 ?bs @ ?hj @ b @ rest"
    by (simp_all add: whole_frame_def Let_def)
  from read_exact_ok [OF l4] obtain r1 where
    s1: "read_exact r 4 = (Inr (take 4 ?bs), r1)" and c1: "concat r1 = drop 4 ?bs" by blast
  from lh c1 have "?hlen \<le> length (concat r1)" by simp
  from read_exact_ok [OF this] c1 obtain r2 where
    s2: "read_exact r1 ?hlen = (Inr ?hj, r2)" and c2: "concat r2 = drop ?hlen (drop 4 ?bs)"
    by auto
  have "length (take 4 ?bs @ ?hj) = 4 + ?hlen" using l4 lh by simp
  then have "drop (4 + ?hlen) ?bs = b @ rest"
    using eq by (metis append.assoc append_eq_conv_conj)
  then have c2': "concat r2 = b @ rest" using c2 by (simp add: add.commute)
  show ?thesis
  proof (cases "py_gt_zero (dict_get h ''body_len'' (JInt 0))")
    case (Inl e)
    with pl show ?thesis by (simp add: payload_len_def)
  next
    case (Inr pos)
    show ?thesis
    proof (cases pos)
      case False
      with Inr pl have "b = []" by (simp add: payload_len_def)
      with s1 s2 js Inr False c2' show ?thesis by (simp add: read_message_def)
    next
      case True
      with Inr pl have n: "py_count (dict_get h ''body_len'' (JInt 0)) = length b"
        by (simp add: payload_len_def)
      have "length b \<le> length (concat r2)" using c2' by simp
      from read_exact_ok [OF this] c2' obtain r3 where
        s3: "read_exact r2 (length b) = (Inr b, r3)" and c3: "concat r3 = rest" by auto
      with s1 s2 js Inr True n show ?thesis by (simp add: read_message_def)
    qed
  qed
qed

lemma read_message_truncated:
  assumes "frame_truncated rt (concat r)"
  shows "read_message rt r = (Inl EOFError, [])"
proof -
  let ?bs = "concat r"
  let ?hlen = "unpack_u32 (take 4 ?bs)"
  let ?hj = "take ?hlen (drop 4 ?bs)"
  show ?thesis
  proof (cases "length ?bs < 4")
    case True
    from read_exact_eof [OF this] show ?thesis by (simp add: read_message_def)
  next
    case False
    then have l4: "4 \<le> length ?bs" by simp
    from read_exact_ok [OF l4] obtain r1 where
      s1: "read_exact r 4 = (Inr (take 4 ?bs), r1)" and c1: "concat r1 = drop 4 ?bs" by blast
    show ?thesis
    proof (cases "length ?bs < 4 + ?hlen")
      case True
      with c1 l4 have "length (concat r1) < ?hlen" by simp
      from read_exact_eof [OF this] s1 show ?thesis by (simp add: read_message_def)
    next
      case nothdr: False
      with c1 have "?hlen \<le> length (concat r1)" by simp
      from read_exact_ok [OF this] c1 obtain r2 where
        s2: "read_exact r1 ?hlen = (Inr ?hj, r2)" and c2: "concat r2 = drop ?hlen (drop 4 ?bs)"
        by auto
      from assms False nothdr have tr:
        "(case json_loads rt ?hj of
            Inr (JObj h) \<Rightarrow>
              (case payload_len h of Inr n \<Rightarrow> length ?bs < 4 + ?hlen + n | Inl e \<Rightarrow> False)
          | _ \<Rightarrow> False)"
        by (simp add: frame_truncated_def Let_def)
      then obtain h where js: "json_loads rt ?hj = Inr (JObj h)"
        by (cases "json_loads rt ?hj"; simp split: json.splits)
      with tr obtain n where pl: "payload_len h = Inr n" and short: "length ?bs < 4 + ?hlen + n"
        by (cases "payload_len h"; simp)
      from short have npos: "0 < n" using nothdr by simp
      with pl have gt: "py_gt_zero (dict_get h ''body_len'' (JInt 0)) = Inr True"
        and cnt: "py_count (dict_get h ''body_len'' (JInt 0)) = n"
        by (auto simp: payload_len_def split: sum.splits bool.splits)
      from short c2 nothdr have "length (concat r2) < n" by simp
      from read_exact_eof [OF this] s1 s2 js gt cnt show ?thesis
        by (simp add: read_message_def)
    qed
  qed
qed

lemma read_message_success:
  assumes "read_message rt r = (Inr (h, b), r')"
  shows "whole_frame rt (concat r) h b (concat r')"
proof -
  let ?bs = "concat r"
  let ?hlen = "unpack_u32 (take 4 ?bs)"
  let ?hj = "take ?hlen (drop 4 ?bs)"
  show ?thesis
  proof (cases rule: read_exact_cases [of 4 r])
    case eof
    with assms show ?thesis by (simp add: read_message_def)
  next
    case (ok r1)
    show ?thesis
    proof (cases rule: read_exact_cases [of ?hlen r1])
      case eof
      with ok assms show ?thesis by (simp add: read_message_def)
    next
      case hdr: (ok r2)
      from hdr ok have hj: "take ?hlen (concat r1) = ?hj" and c2: "concat r2 = drop ?hlen (drop 4 ?bs)"
        and lh: "4 + ?hlen \<le> length ?bs"
        by simp_all
      from assms ok hdr hj obtain j where js: "json_loads rt ?hj = Inr j"
        by (auto simp: read_message_def split: sum.splits)
      with assms ok hdr hj obtain h0 where j: "j = JObj h0"
        by (cases j) (auto simp: read_message_def)
      from assms ok hdr hj js j obtain pos where
        gt: "py_gt_zero (dict_get h0 ''body_len'' (JInt 0)) = Inr pos"
        by (auto simp: read_message_def split: sum.splits)
      have split3: "?bs = take 4 ?bs @ ?hj @ drop ?hlen (drop 4 ?bs)"
        by (metis append_take_drop_id)
      show ?thesis
      proof (cases pos)
        case False
        with assms ok hdr hj js j gt have "h = h0" "b = []" "r' = r2"
          by (auto simp: read_message_def)
        with ok lh js j gt False c2 split3 show ?thesis
          by (simp add: whole_frame_def payload_len_def Let_def)
      next
        case True
        let ?n = "py_count (dict_get h0 ''body_len'' (JInt 0))"
        show ?thesis
        proof (cases rule: read_exact_cases [of ?n r2])
          case eof
          with assms ok hdr hj js j gt True show ?thesis by (simp add: read_message_def)
        next
          case body: (ok r3)
          with assms ok hdr hj js j gt True
          have e: "h = h0" "b = take ?n (concat r2)" "r' = r3"
            by (auto simp: read_message_def)
          have lb: "length b = ?n" using e body by simp
          have "concat r2 = b @ concat r'" using e body by simp
          with c2 split3 have "?bs = take 4 ?bs @ ?hj @ b @ concat r'" by simp
          with ok lh js j gt True lb e show ?thesis
            by (simp add: whole_frame_def payload_len_def Let_def)
        qed
      qed
    qed
  qed
qed

lemma length_after_prefix:
  "bs = p @ q @ b @ rest \<Longrightarrow> length p = 4 \<Longrightarrow> length rest < length bs"
  by simp

lemma read_message_shrinks:
  assumes "read_message rt r = (Inr (h, b), r')"
  shows "length (concat r') < length (concat r)"
proof -
  let ?bs = "concat r"
  let ?hj = "take (unpack_u32 (take 4 ?bs)) (drop 4 ?bs)"
  from read_message_success [OF assms]
  have l4: "4 \<le> length ?bs" and eq: "?bs = take 4 ?bs @ ?hj @ b @ concat r'"
    by (simp_all add: whole_frame_def Let_def)
  show ?thesis by (rule length_after_prefix [OF eq]) (simp add: l4)
qed

lemma send_message_sent:
  assumes "send_message rt c h p = (None, c')"
  shows "\<exists>pre. pack_u32 (length (json_dumps rt (JObj h))) = Inr pre \<and> \<not> closed c \<and> \<not> gone c \<and>
               c' = c\<lparr>out := out c @ pre @ json_dumps rt (JObj h) @ p\<rparr>"
  using assms by (auto simp: send_message_def Let_def split: sum.splits if_splits)

lemma send_message_wire:
  assumes "send_message rt c h p = (None, c\<lparr>out := out c @ wire\<rparr>)"
  shows "\<exists>pre. pack_u32 (length (json_dumps rt (JObj h))) = Inr pre \<and>
               wire = pre @ json_dumps rt (JObj h) @ p \<and> \<not> closed c \<and> \<not> gone c"
proof -
  from send_message_sent [OF assms] obtain pre where
    pk: "pack_u32 (length (json_dumps rt (JObj h))) = Inr pre" and
    op: "\<not> closed c" "\<not> gone c" and
    eq: "c\<lparr>out := out c @ wire\<rparr> = c\<lparr>out := out c @ pre @ json_dumps rt (JObj h) @ p\<rparr>"
    by blast
  from eq have "out (c\<lparr>out := out c @ wire\<rparr>) =
                out (c\<lparr>out := out c @ pre @ json_dumps rt (JObj h) @ p\<rparr>)"
    by simp
  then have "wire = pre @ json_dumps rt (JObj h) @ p" by simp
  with pk op show ?thesis by blast
qed

lemma send_message_on:
  assumes "send_message rt c h p = (None, c\<lparr>out := out c @ wire\<rparr>)"
    and "\<not> closed d" and "\<not> gone d"
  shows "send_message rt d h p = (None, d\<lparr>out := out d @ wire\<rparr>)"
proof -
  from send_message_wire [OF assms(1)] obtain pre where
    pk: "pack_u32 (length (json_dumps rt (JObj h))) = Inr pre" and
    w: "wire = pre @ json_dumps rt (JObj h) @ p" by blast
  show ?thesis using pk assms(2,3) unfolding w by (simp add: send_message_def Let_def)
qed


section \<open>The Ship peer\<close>

subsection \<open>Uplink session\<close>

text \<open>
  \<open>uplink\<close> is \<open>offshore_reader\<close>/\<open>offshore_writer\<close> (\<open>None\<close> until the first dial);
  \<open>dials\<close> lists what the coming calls of \<open>asyncio.open_connection\<close> will give: an
  error, or a fresh connection with the bytes its peer will send.
\<close>

record ship =
  uplink :: "conn option"
  dials :: "(error + reader) list"

definition open_connection :: "ship \<Rightarrow> error option \<times> ship" where
  "open_connection s =
     (case dials s of
        [] \<Rightarrow> (Some (OSError ''Connection refused''), s)
      | Inl e # ds \<Rightarrow> (Some e, s\<lparr>dials := ds\<rparr>)
      | Inr r # ds \<Rightarrow> (None, s\<lparr>uplink := Some (fresh_conn r), dials := ds\<rparr>))"

definition ensure_offshore :: "ship \<Rightarrow> error option \<times> ship" where
  "ensure_offshore s =
     (case uplink s of
        None \<Rightarrow> open_connection s
      | Some u \<Rightarrow> if \<not> closed u then (None, s) else open_connection s)"

subsection \<open>Frames the Ship sends, and what it writes to its clients\<close>

definition http_request_header :: "string \<Rightarrow> string \<Rightarrow> (string \<times> string) list \<Rightarrow> bytes \<Rightarrow> header" where
  "http_request_header method target headers body =
     [(''type'', JStr ''HTTPRequest''), (''method'', JStr method), (''url'', JStr target),
      (''headers'', JObj (map (\<lambda>(k, v). (k, JStr v)) headers)),
      (''body_len'', JInt (int (length body)))]"

definition connect_header :: "string \<Rightarrow> int \<Rightarrow> header" where
  "connect_header host port = [(''type'', JStr ''CONNECT''), (''host'', JStr host), (''port'', JInt port)]"

definition data_header :: "bytes \<Rightarrow> header" where
  "data_header chunk = [(''type'', JStr ''DATA''), (''body_len'', JInt (int (length chunk)))]"

definition data_end_header :: header where
  "data_end_header = [(''type'', JStr ''DATA_END''), (''body_len'', JInt 0)]"

definition bad_gateway :: bytes where
  "bad_gateway =
     ''HTTP/1.1 502 Bad Gateway'' @ CRLF @ ''Content-Length: 11'' @ CRLF @ CRLF @ ''Bad Gateway''"

definition connection_established :: bytes where
  "connection_established = ''HTTP/1.1 200 Connection Established'' @ CRLF @ CRLF"

subsection \<open>The HTTP handler\<close>

definition write_response :: "runtime \<Rightarrow> conn \<Rightarrow> header \<Rightarrow> bytes \<Rightarrow> error option \<times> conn" where
  "write_response rt cl resp_header resp_body =
     (let status = dict_get resp_header ''status_code'' (JInt 502);
          rhdrs = dict_get resp_header ''headers'' (JObj []);
          cl1 = conn_write cl (''HTTP/1.1 '' @ py_str rt status @ '' OK'' @ CRLF)
      in case rhdrs of
           JObj kvs \<Rightarrow>
             (let cl2 = foldl (\<lambda>c (k, v). conn_write c (k @ '': '' @ py_str rt v @ CRLF)) cl1 kvs;
                  cl3 = conn_write cl2 CRLF;
                  cl4 = (if resp_body \<noteq> [] then conn_write cl3 resp_body else cl3)
              in (None, conn_close cl4))
         | _ \<Rightarrow> (Some AttributeError, cl1))"

definition ship_handle_http_request ::
  "runtime \<Rightarrow> ship \<Rightarrow> string \<Rightarrow> string \<Rightarrow> (string \<times> string) list \<Rightarrow> bytes \<Rightarrow> conn
     \<Rightarrow> error option \<times> ship \<times> conn" where
  "ship_handle_http_request rt s method target headers body cl =
     (case uplink s of
        None \<Rightarrow> (Some AttributeError, s, cl)
      | Some u \<Rightarrow>
          (case send_message rt u (http_request_header method target headers body) body of
             (Some e, u1) \<Rightarrow> (Some e, s\<lparr>uplink := Some u1\<rparr>, cl)
           | (None, u1) \<Rightarrow>
               (case read_message rt (rd u1) of
                  (Inl e, r') \<Rightarrow>
                    (None, s\<lparr>uplink := Some (u1\<lparr>rd := r'\<rparr>)\<rparr>,
                     conn_close (conn_write cl bad_gateway))
                | (Inr (resp_header, resp_body), r') \<Rightarrow>
                    if map_of resp_header ''type'' \<noteq> Some (JStr ''HTTPResponse'')
                    then (None, s\<lparr>uplink := Some (u1\<lparr>rd := r'\<rparr>)\<rparr>,
                          conn_close (conn_write cl bad_gateway))
                    else (case write_response rt cl resp_header resp_body of
                            (e, cl') \<Rightarrow> (e, s\<lparr>uplink := Some (u1\<lparr>rd := r'\<rparr>)\<rparr>, cl')))))"

subsection \<open>The CONNECT handler and its two tunnel sub-tasks\<close>

text \<open>
  \<open>read_client_send\<close> reads the client and writes the uplink; \<open>read_offshore_write\<close>
  reads the uplink and writes the client. After an exception \<open>read_client_send\<close> tries
  one more \<open>DATA_END\<close> and swallows its failure.
\<close>

function read_client_send :: "runtime \<Rightarrow> conn \<Rightarrow> conn \<Rightarrow> conn \<times> conn" where
  "read_client_send rt u cl =
     (case conn_read cl 4096 of
        (chunk, cl') \<Rightarrow>
          if chunk = [] then
            (case send_message rt u data_end_header [] of
               (None, u1) \<Rightarrow> (u1, cl')
             | (Some e, u1) \<Rightarrow> (snd (send_message rt u1 data_end_header []), cl'))
          else
            (case send_message rt u (data_header chunk) chunk of
               (None, u1) \<Rightarrow> read_client_send rt u1 cl'
             | (Some e, u1) \<Rightarrow> (snd (send_message rt u1 data_end_header []), cl')))"
  by pat_completeness auto
termination
  apply (relation "measure (\<lambda>(rt, u, cl). length (buf cl) + length (concat (rd cl)))")
    apply simp
   apply (auto dest: conn_read_shrinks [OF sym])
  done

declare read_client_send.simps [simp del]

function read_offshore_write :: "runtime \<Rightarrow> conn \<Rightarrow> conn \<Rightarrow> conn \<times> conn" where
  "read_offshore_write rt u cl =
     (case read_message rt (rd u) of
        (Inl e, r') \<Rightarrow> (u\<lparr>rd := r'\<rparr>, cl)
      | (Inr (h, b), r') \<Rightarrow>
          if map_of h ''type'' = Some (JStr ''DATA'') then
            read_offshore_write rt (u\<lparr>rd := r'\<rparr>) (if b \<noteq> [] then conn_write cl b else cl)
          else if map_of h ''type'' = Some (JStr ''DATA_END'') then (u\<lparr>rd := r'\<rparr>, cl)
          else read_offshore_write rt (u\<lparr>rd := r'\<rparr>) cl)"
  by pat_completeness auto
termination
  apply (relation "measure (\<lambda>(rt, u, cl). length (concat (rd u)))")
    apply simp
   apply (auto dest: read_message_shrinks [OF sym])
  done

declare read_offshore_write.simps [simp del]


text \<open>
  The two sub-tasks are joined by \<open>asyncio.gather\<close>. As long as the uplink takes what
  is written to it they touch disjoint parts of the state (one the client's reader and the
  uplink's writer, the other the uplink's reader and the client's writer), so every
  interleaving ends in the state of running one after the other
  (\<open>ship_tunnel_commutes\<close> below: the two orders agree). After the join the client's
  socket is closed.
\<close>

definition ship_tunnel :: "runtime \<Rightarrow> conn \<Rightarrow> conn \<Rightarrow> conn \<times> conn" where
  "ship_tunnel rt u cl =
     (case read_client_send rt u cl of
        (u1, cl1) \<Rightarrow>
          (case read_offshore_write rt u1 cl1 of
             (u2, cl2) \<Rightarrow> (u2, conn_close cl2)))"

text \<open>
  \<open>_handle_connect\<close>: an exception of \<open>send_message\<close> or \<open>read_message\<close> leaves the
  handler (the worker catches it), with the client's socket still open.
\<close>

definition ship_handle_connect ::
  "runtime \<Rightarrow> ship \<Rightarrow> string \<Rightarrow> int \<Rightarrow> conn \<Rightarrow> error option \<times> ship \<times> conn" where
  "ship_handle_connect rt s host port cl =
     (case uplink s of
        None \<Rightarrow> (Some AttributeError, s, cl)
      | Some u \<Rightarrow>
          (case send_message rt u (connect_header host port) [] of
             (Some e, u1) \<Rightarrow> (Some e, s\<lparr>uplink := Some u1\<rparr>, cl)
           | (None, u1) \<Rightarrow>
               (case read_message rt (rd u1) of
                  (Inl e, r') \<Rightarrow> (Some e, s\<lparr>uplink := Some (u1\<lparr>rd := r'\<rparr>)\<rparr>, cl)
                | (Inr (ok_header, _), r') \<Rightarrow>
                    if map_of ok_header ''type'' \<noteq> Some (JStr ''CONNECT_OK'')
                    then (None, s\<lparr>uplink := Some (u1\<lparr>rd := r'\<rparr>)\<rparr>,
                          conn_close (conn_write cl bad_gateway))
                    else
                      (case ship_tunnel rt (u1\<lparr>rd := r'\<rparr>)
                              (conn_write cl connection_established) of
                         (u', cl') \<Rightarrow> (None, s\<lparr>uplink := Some u'\<rparr>, cl')))))"

subsection \<open>The acceptor\<close>

text \<open>
  A work item is the handler to call with its arguments; the client's streams travel with
  it. \<open>StreamReader.readline\<close> returns the bytes up to and including the first newline,
  what is left at end-of-stream when there is none, and raises \<open>ValueError\<close> when the
  line is longer than the stream's limit (64 KiB by default).
\<close>

datatype work =
    HttpWork string string "(string \<times> string) list" bytes conn
  | ConnectWork string int conn

fun client_of :: "work \<Rightarrow> conn" where
  "client_of (HttpWork method target headers body cl) = cl"
| "client_of (ConnectWork host port cl) = cl"













subsection \<open>The serializer\<close>

text \<open>
  The worker's observable steps: \<open>queue.get()\<close> returned an item, the handler's exception
  was caught and printed, \<open>queue.task_done()\<close> was called. \<open>finished\<close> collects the
  clients' connections as the handlers left them.
\<close>

datatype event = Picked work | TaskError error | TaskDone work

record serializer =
  link :: ship
  trace :: "event list"
  finished :: "conn list"

fun run_task :: "runtime \<Rightarrow> ship \<Rightarrow> work \<Rightarrow> error option \<times> ship \<times> conn" where
  "run_task rt s (HttpWork method target headers body cl) =
     ship_handle_http_request rt s method target headers body cl"
| "run_task rt s (ConnectWork host port cl) = ship_handle_connect rt s host port cl"

text \<open>The body of the worker's \<open>try\<close>: \<open>ensure_offshore\<close>, then the handler.\<close>

definition try_task :: "runtime \<Rightarrow> ship \<Rightarrow> work \<Rightarrow> error option \<times> ship \<times> conn" where
  "try_task rt s item =
     (case ensure_offshore s of
        (Some e, s') \<Rightarrow> (Some e, s', client_of item)
      | (None, s') \<Rightarrow> run_task rt s' item)"

definition worker_step :: "runtime \<Rightarrow> serializer \<Rightarrow> work \<Rightarrow> serializer" where
  "worker_step rt ws item =
     (case try_task rt (link ws) item of
        (None, s', cl') \<Rightarrow>
          ws\<lparr>link := s', trace := trace ws @ [Picked item, TaskDone item],
             finished := finished ws @ [cl']\<rparr>
      | (Some e, s', cl') \<Rightarrow>
          ws\<lparr>link := s', trace := trace ws @ [Picked item, TaskError e, TaskDone item],
             finished := finished ws @ [cl']\<rparr>)"

text \<open>
  The worker loops for ever; \<open>worker\<close> gives its state when it has drained the queue
  \<open>q\<close> and waits in \<open>queue.get()\<close>.
\<close>

fun worker :: "runtime \<Rightarrow> serializer \<Rightarrow> work list \<Rightarrow> serializer" where
  "worker rt ws [] = ws"
| "worker rt ws (item # q) = worker rt (worker_step rt ws item) q"


section \<open>The Offshore peer\<close>

subsection \<open>The HTTP executor\<close>

definition response_header :: "int \<Rightarrow> (string \<times> string) list \<Rightarrow> bytes \<Rightarrow> header" where
  "response_header status rhdrs rbody =
     [(''type'', JStr ''HTTPResponse''), (''status_code'', JInt status),
      (''headers'', JObj (map (\<lambda>(k, v). (k, JStr v)) rhdrs)),
      (''body_len'', JInt (int (length rbody)))]"

definition bad_gateway_header :: header where
  "bad_gateway_header =
     [(''type'', JStr ''HTTPResponse''), (''status_code'', JInt 502),
      (''headers'', JObj [(''Content-Length'', JStr ''11'')]), (''body_len'', JInt 11)]"

text \<open>
  \<open>header['method']\<close> and \<open>header['url']\<close> are read before the \<open>try\<close>; the
  \<open>try\<close> covers the outbound call and the sending of its response, and every exception
  in it is answered with the synthetic 502 frame.
\<close>

definition offshore_handle_http_request ::
  "runtime \<Rightarrow> conn \<Rightarrow> header \<Rightarrow> bytes \<Rightarrow> error option \<times> conn" where
  "offshore_handle_http_request rt u header body =
     (case map_of header ''method'' of
        None \<Rightarrow> (Some KeyError, u)
      | Some method \<Rightarrow>
          (case map_of header ''url'' of
             None \<Rightarrow> (Some KeyError, u)
           | Some url \<Rightarrow>
               (case http_request rt method url (dict_get header ''headers'' (JObj [])) body of
                  Inl e \<Rightarrow> send_message rt u bad_gateway_header ''Bad Gateway''
                | Inr (status, rhdrs, rbody) \<Rightarrow>
                    (case send_message rt u (response_header status rhdrs rbody) rbody of
                       (None, u') \<Rightarrow> (None, u')
                     | (Some e, u') \<Rightarrow> send_message rt u' bad_gateway_header ''Bad Gateway''))))"

subsection \<open>The CONNECT bridge\<close>

text \<open>
  One turn of each sub-task's loop, on the uplink \<open>u\<close> and the target's connection
  \<open>tg\<close>; the flag says whether the loop goes on.
\<close>

definition ship_to_target_step :: "runtime \<Rightarrow> conn \<Rightarrow> conn \<Rightarrow> bool \<times> conn \<times> conn" where
  "ship_to_target_step rt u tg =
     (case read_message rt (rd u) of
        (Inl e, r') \<Rightarrow> (False, u\<lparr>rd := r'\<rparr>, tg)
      | (Inr (h, b), r') \<Rightarrow>
          if map_of h ''type'' = Some (JStr ''DATA'') then
            (True, u\<lparr>rd := r'\<rparr>, if b \<noteq> [] then conn_write tg b else tg)
          else if map_of h ''type'' = Some (JStr ''DATA_END'') then
            (False, u\<lparr>rd := r'\<rparr>, conn_close tg)
          else (True, u\<lparr>rd := r'\<rparr>, tg))"

definition target_to_ship_step :: "runtime \<Rightarrow> conn \<Rightarrow> conn \<Rightarrow> bool \<times> conn \<times> conn" where
  "target_to_ship_step rt u tg =
     (case conn_read tg 1024 of
        (chunk, tg') \<Rightarrow>
          if chunk = [] then (False, snd (send_message rt u data_end_header []), tg')
          else
            (case send_message rt u (data_header chunk) chunk of
               (None, u') \<Rightarrow> (True, u', tg')
             | (Some e, u') \<Rightarrow> (False, u', tg')))"

lemma ship_to_target_step_shrinks:
  "ship_to_target_step rt u tg = (True, u', tg') \<Longrightarrow>
   length (concat (rd u')) < length (concat (rd u))"
  by (auto simp: ship_to_target_step_def split: prod.splits sum.splits if_splits
           dest: read_message_shrinks)

lemma target_to_ship_step_shrinks:
  "target_to_ship_step rt u tg = (True, u', tg') \<Longrightarrow>
   length (buf tg') + length (concat (rd tg')) < length (buf tg) + length (concat (rd tg))"
  by (auto simp: target_to_ship_step_def split: prod.splits option.splits if_splits
           dest: conn_read_shrinks)

function ship_to_target :: "runtime \<Rightarrow> conn \<Rightarrow> conn \<Rightarrow> conn \<times> conn" where
  "ship_to_target rt u tg =
     (case ship_to_target_step rt u tg of
        (True, u', tg') \<Rightarrow> ship_to_target rt u' tg'
      | (False, u', tg') \<Rightarrow> (u', tg'))"
  by pat_completeness auto
termination
  apply (relation "measure (\<lambda>(rt, u, tg). length (concat (rd u)))")
   apply simp
  apply (auto dest: ship_to_target_step_shrinks [OF sym])
  done

declare ship_to_target.simps [simp del]

function target_to_ship :: "runtime \<Rightarrow> conn \<Rightarrow> conn \<Rightarrow> conn \<times> conn" where
  "target_to_ship rt u tg =
     (case target_to_ship_step rt u tg of
        (True, u', tg') \<Rightarrow> target_to_ship rt u' tg'
      | (False, u', tg') \<Rightarrow> (u', tg'))"
  by pat_completeness auto
termination
  apply (relation "measure (\<lambda>(rt, u, tg). length (buf tg) + length (concat (rd tg)))")
   apply simp
  apply (auto dest: target_to_ship_step_shrinks [OF sym])
  done

declare target_to_ship.simps [simp del]

text \<open>
  \<open>asyncio.gather\<close> of the two sub-tasks. They share the target's connection, so their
  interleaving matters, and so does the moment at which the target's bytes arrive: the
  schedule says whose loop takes the next turn, or that the target's transport receives
  its next chunk. When the schedule is used up the Uplink-to-Target loop runs to its end,
  then the Target-to-Uplink loop.
\<close>

datatype turn = ShipToTarget | TargetToShip | TargetDelivers

fun gather_tunnel ::
  "runtime \<Rightarrow> turn list \<Rightarrow> bool \<Rightarrow> bool \<Rightarrow> conn \<Rightarrow> conn \<Rightarrow> conn \<times> conn" where
  "gather_tunnel rt [] a b u tg =
     (case (if a then ship_to_target rt u tg else (u, tg)) of
        (u', tg') \<Rightarrow> (if b then target_to_ship rt u' tg' else (u', tg')))"
| "gather_tunnel rt (ShipToTarget # sch) a b u tg =
     (if a then
        (case ship_to_target_step rt u tg of
           (a', u', tg') \<Rightarrow> gather_tunnel rt sch a' b u' tg')
      else gather_tunnel rt sch a b u tg)"
| "gather_tunnel rt (TargetToShip # sch) a b u tg =
     (if b then
        (case target_to_ship_step rt u tg of
           (b', u', tg') \<Rightarrow> gather_tunnel rt sch a b' u' tg')
      else gather_tunnel rt sch a b u tg)"
| "gather_tunnel rt (TargetDelivers # sch) a b u tg =
     gather_tunnel rt sch a b u (conn_deliver tg)"

text \<open>\<open>int(header['port'])\<close> and \<open>str(e)\<close>.\<close>

definition json_int :: "runtime \<Rightarrow> json \<Rightarrow> error + int" where
  "json_int rt v =
     (case v of
        JInt i \<Rightarrow> Inr i
      | JBool b \<Rightarrow> Inr (if b then 1 else 0)
      | JStr s \<Rightarrow> py_int rt s
      | _ \<Rightarrow> Inl TypeError)"

fun error_str :: "error \<Rightarrow> string" where
  "error_str (OSError msg) = msg"
| "error_str (ClientError msg) = msg"
| "error_str EOFError = ''connection closed''"
| "error_str ConnectionResetError = ''Connection lost''"
| "error_str StructError =
     [CHR 0x27] @ ''I'' @ [CHR 0x27] @ '' format requires 0 <= number <= 4294967295''"
| "error_str _ = []"

definition error_header :: "error \<Rightarrow> header" where
  "error_header e = [(''type'', JStr ''ERROR''), (''message'', JStr (error_str e))]"

text \<open>
  \<open>dial\<close> is \<open>asyncio.open_connection(host, port)\<close>: an error, or the bytes the target
  will send. The result is the exception that leaves the handler (if any), the uplink, and
  the target's connection once dialled.
\<close>

definition offshore_handle_connect ::
  "runtime \<Rightarrow> (json \<Rightarrow> int \<Rightarrow> error + reader) \<Rightarrow> turn list \<Rightarrow> conn \<Rightarrow> header
     \<Rightarrow> error option \<times> conn \<times> conn option" where
  "offshore_handle_connect rt dial sch u header =
     (case map_of header ''host'' of
        None \<Rightarrow> (Some KeyError, u, None)
      | Some host \<Rightarrow>
          (case map_of header ''port'' of
             None \<Rightarrow> (Some KeyError, u, None)
           | Some pv \<Rightarrow>
               (case json_int rt pv of
                  Inl e \<Rightarrow> (Some e, u, None)
                | Inr port \<Rightarrow>
                    (case dial host port of
                       Inl e \<Rightarrow>
                         (case send_message rt u (error_header e) [] of
                            (x, u') \<Rightarrow> (x, u', None))
                     | Inr tr \<Rightarrow>
                         (case send_message rt u [(''type'', JStr ''CONNECT_OK'')] [] of
                            (Some e, u') \<Rightarrow>
                              (case send_message rt u' (error_header e) [] of
                                 (x, u'') \<Rightarrow> (x, u'', Some (fresh_conn tr)))
                          | (None, u') \<Rightarrow>
                              (case gather_tunnel rt sch True True u' (fresh_conn tr) of
                                 (u'', tg) \<Rightarrow> (None, u'', Some tg)))))))"


section \<open>A concrete runtime: JSON text over printable ASCII\<close>

text \<open>
  An executable instance of the runtime, used to run the model on concrete inputs. Its
  \<open>dumps\<close> writes JSON text the way \<open>json.dumps\<close> does (\<open>", "\<close> and \<open>": "\<close> as
  separators); strings are limited to ASCII and to the two escapes of the quote and the
  backslash. Its \<open>loads\<close> is a recursive-descent reader with a step budget that the
  length of the text always covers; numbers are integers. Its \<open>decode\<close> accepts ASCII,
  and its \<open>int\<close> an optional sign and decimal digits between white space.
\<close>

definition DQ :: char where "DQ = CHR 0x22"
definition BSL :: char where "BSL = CHR 0x5C"

definition json_quote :: "string \<Rightarrow> string" where
  "json_quote s =
     DQ # concat (map (\<lambda>c. if c = DQ \<or> c = BSL then [BSL, c] else [c]) s) @ [DQ]"

fun dumps_value :: "json \<Rightarrow> string"
  and dumps_items :: "json list \<Rightarrow> string"
  and dumps_members :: "(string \<times> json) list \<Rightarrow> string" where
  "dumps_value JNull = ''null''"
| "dumps_value (JBool b) = (if b then ''true'' else ''false'')"
| "dumps_value (JInt i) = py_str_int i"
| "dumps_value (JStr s) = json_quote s"
| "dumps_value (JList xs) = ''['' @ dumps_items xs @ '']''"
| "dumps_value (JObj kvs) = ''{'' @ dumps_members kvs @ ''}''"
| "dumps_items [] = []"
| "dumps_items [x] = dumps_value x"
| "dumps_items (x # y # ys) = dumps_value x @ '', '' @ dumps_items (y # ys)"
| "dumps_members [] = []"
| "dumps_members [(k, v)] = json_quote k @ '': '' @ dumps_value v"
| "dumps_members ((k, v) # y # ys) = json_quote k @ '': '' @ dumps_value v @ '', '' @ dumps_members (y # ys)"

definition is_ws :: "char \<Rightarrow> bool" where
  "is_ws c = (c = CHR '' '' \<or> c = CHR 0x09 \<or> c = LF \<or> c = CR)"

definition skip_ws :: "string \<Rightarrow> string" where
  "skip_ws s = dropWhile is_ws s"

definition is_digit :: "char \<Rightarrow> bool" where
  "is_digit c = (48 \<le> (of_char c :: nat) \<and> (of_char c :: nat) \<le> 57)"

definition digits_value :: "string \<Rightarrow> nat" where
  "digits_value ds = foldl (\<lambda>a c. a * 10 + (of_char c - 48)) 0 ds"

fun parse_string :: "string \<Rightarrow> string \<Rightarrow> (string \<times> string) option" where
  "parse_string [] acc = None"
| "parse_string [c] acc = (if c = DQ then Some (rev acc, []) else None)"
| "parse_string (c # d # cs) acc =
     (if c = DQ then Some (rev acc, d # cs)
      else if c = BSL then (if d = DQ \<or> d = BSL then parse_string cs (d # acc) else None)
      else parse_string (d # cs) (c # acc))"

definition parse_number :: "string \<Rightarrow> (json \<times> string) option" where
  "parse_number s =
     (let neg = (take 1 s = ''-'');
          t = (if neg then drop 1 s else s);
          ds = takeWhile is_digit t;
          u = dropWhile is_digit t
      in if ds = [] \<or> (1 < length ds \<and> hd ds = CHR ''0'') then None
         else if u \<noteq> [] \<and> (hd u = CHR ''.'' \<or> hd u = CHR ''e'' \<or> hd u = CHR ''E'') then None
         else Some (JInt (if neg then - int (digits_value ds) else int (digits_value ds)), u))"

fun parse_value :: "nat \<Rightarrow> string \<Rightarrow> (json \<times> string) option"
  and parse_items :: "nat \<Rightarrow> string \<Rightarrow> json list \<Rightarrow> (json \<times> string) option"
  and parse_members :: "nat \<Rightarrow> string \<Rightarrow> header \<Rightarrow> (json \<times> string) option" where
  "parse_value 0 s = None"
| "parse_value (Suc f) s =
     (let t = skip_ws s in
      if take 4 t = ''null'' then Some (JNull, drop 4 t)
      else if take 4 t = ''true'' then Some (JBool True, drop 4 t)
      else if take 5 t = ''false'' then Some (JBool False, drop 5 t)
      else if take 1 t = [DQ] then
        (case parse_string (drop 1 t) [] of None \<Rightarrow> None | Some (x, u) \<Rightarrow> Some (JStr x, u))
      else if take 1 t = ''['' then
        (if take 1 (skip_ws (drop 1 t)) = '']'' then Some (JList [], drop 1 (skip_ws (drop 1 t)))
         else parse_items f (drop 1 t) [])
      else if take 1 t = ''{'' then
        (if take 1 (skip_ws (drop 1 t)) = ''}'' then Some (JObj [], drop 1 (skip_ws (drop 1 t)))
         else parse_members f (drop 1 t) [])
      else parse_number t)"
| "parse_items 0 s acc = None"
| "parse_items (Suc f) s acc =
     (case parse_value f s of
        None \<Rightarrow> None
      | Some (v, t) \<Rightarrow>
          (let u = skip_ws t in
           if take 1 u = '','' then parse_items f (drop 1 u) (acc @ [v])
           else if take 1 u = '']'' then Some (JList (acc @ [v]), drop 1 u)
           else None))"
| "parse_members 0 s acc = None"
| "parse_members (Suc f) s acc =
     (let t = skip_ws s in
      if take 1 t \<noteq> [DQ] then None
      else
        (case parse_string (drop 1 t) [] of
           None \<Rightarrow> None
         | Some (k, u) \<Rightarrow>
             (let u' = skip_ws u in
              if take 1 u' \<noteq> '':'' then None
              else
                (case parse_value f (drop 1 u') of
                   None \<Rightarrow> None
                 | Some (v, x) \<Rightarrow>
                     (let y = skip_ws x in
                      if take 1 y = '','' then parse_members f (drop 1 y) (dict_set acc k v)
                      else if take 1 y = ''}'' then Some (JObj (dict_set acc k v), drop 1 y)
                      else None)))))"

definition loads_text :: "bytes \<Rightarrow> error + json" where
  "loads_text s =
     (if \<exists>c \<in> set s. 128 \<le> (of_char c :: nat) then Inl UnicodeDecodeError
      else
        (case parse_value (Suc (length s)) s of
           None \<Rightarrow> Inl JSONDecodeError
         | Some (v, rest) \<Rightarrow> if skip_ws rest = [] then Inr v else Inl JSONDecodeError))"


definition decode_ascii :: "bytes \<Rightarrow> error + string" where
  "decode_ascii b =
     (if \<exists>c \<in> set b. 128 \<le> (of_char c :: nat) then Inl UnicodeDecodeError else Inr b)"

definition int_of_string :: "string \<Rightarrow> error + int" where
  "int_of_string s =
     (let t = py_strip s;
          neg = (take 1 t = ''-'');
          ds = (if neg \<or> take 1 t = ''+'' then drop 1 t else t)
      in if ds = [] \<or> \<not> list_all is_digit ds then Inl ValueError
         else Inr (if neg then - int (digits_value ds) else int (digits_value ds)))"

definition SQ :: char where "SQ = CHR 0x27"

definition repr_str :: "string \<Rightarrow> string" where
  "repr_str s =
     (if SQ \<in> set s \<and> DQ \<notin> set s
      then DQ # concat (map (\<lambda>c. if c = BSL then [BSL, BSL] else [c]) s) @ [DQ]
      else SQ # concat (map (\<lambda>c. if c = BSL \<or> c = SQ then [BSL, c] else [c]) s) @ [SQ])"

fun repr_value :: "json \<Rightarrow> string"
  and repr_items :: "json list \<Rightarrow> string"
  and repr_members :: "(string \<times> json) list \<Rightarrow> string" where
  "repr_value JNull = ''None''"
| "repr_value (JBool b) = (if b then ''True'' else ''False'')"
| "repr_value (JInt i) = py_str_int i"
| "repr_value (JStr s) = repr_str s"
| "repr_value (JList xs) = ''['' @ repr_items xs @ '']''"
| "repr_value (JObj kvs) = ''{'' @ repr_members kvs @ ''}''"
| "repr_items [] = []"
| "repr_items [x] = repr_value x"
| "repr_items (x # y # ys) = repr_value x @ '', '' @ repr_items (y # ys)"
| "repr_members [] = []"
| "repr_members [(k, v)] = repr_str k @ '': '' @ repr_value v"
| "repr_members ((k, v) # y # ys) =
     repr_str k @ '': '' @ repr_value v @ '', '' @ repr_members (y # ys)"

text \<open>The instance's HTTP client is given: the claims quantify over it.\<close>

definition ascii_runtime ::
  "(json \<Rightarrow> json \<Rightarrow> json \<Rightarrow> bytes \<Rightarrow> error + (int \<times> (string \<times> string) list \<times> bytes)) \<Rightarrow> runtime" where
  "ascii_runtime client =
     \<lparr>json_dumps = dumps_value, json_loads = loads_text, decode = decode_ascii,
      py_int = int_of_string, py_repr = repr_value, http_request = client\<rparr>"

definition unreachable_client ::
  "json \<Rightarrow> json \<Rightarrow> json \<Rightarrow> bytes \<Rightarrow> error + (int \<times> (string \<times> string) list \<times> bytes)" where
  "unreachable_client method url headers body = Inl (ClientError ''Cannot connect to host'')"


definition demo_runtime :: runtime where
  "demo_runtime = ascii_runtime unreachable_client"

text \<open>The wire bytes of a \<open>DATA\<close> frame carrying \<open>abc\<close>: 4 + 31 + 3 bytes.\<close>

definition demo_wire :: bytes where
  "demo_wire = out (snd (send_message demo_runtime (fresh_conn []) (data_header ''abc'') ''abc''))"

text \<open>Three frames in a row: an \<open>ERROR\<close>, a \<open>DATA\<close> carrying \<open>x\<close>, a \<open>DATA_END\<close>.\<close>

definition demo_data_end :: bytes where
  "demo_data_end = out (snd (send_message demo_runtime (fresh_conn []) data_end_header []))"

definition demo_data_x :: bytes where
  "demo_data_x = out (snd (send_message demo_runtime (fresh_conn []) (data_header ''x'') ''x''))"

definition demo_error :: bytes where
  "demo_error = out (snd (send_message demo_runtime (fresh_conn []) (error_header (OSError ''refused'')) []))"


definition demo_connect_ok :: bytes where
  "demo_connect_ok = out (snd (send_message demo_runtime (fresh_conn []) [(''type'', JStr ''CONNECT_OK'')] []))"

definition demo_connect :: bytes where
  "demo_connect = out (snd (send_message demo_runtime (fresh_conn []) (connect_header ''host'' 443) []))"

text \<open>A target that answers \<open>BA\<close> and then ends its stream.\<close>

definition demo_dial :: "json \<Rightarrow> int \<Rightarrow> error + reader" where
  "demo_dial host port = Inr [''BA'']"

text \<open>Scenario S1 of the specification: a plain GET and its response.\<close>

definition demo_get :: work where
  "demo_get = HttpWork ''GET'' ''http://example.com/'' [(''Host'', ''example.com'')] [] (fresh_conn [])"

definition demo_request :: bytes where
  "demo_request =
     out (snd (send_message demo_runtime (fresh_conn [])
            (http_request_header ''GET'' ''http://example.com/'' [(''Host'', ''example.com'')] []) []))"

definition demo_response :: bytes where
  "demo_response =
     out (snd (send_message demo_runtime (fresh_conn [])
            (response_header 200 [(''Content-Type'', ''text/plain'')] ''hello'') ''hello''))"

definition demo_served :: bytes where
  "demo_served = ''HTTP/1.1 200 OK'' @ CRLF @ ''Content-Type: text/plain'' @ CRLF @ CRLF @ ''hello''"

text \<open>Scenario S2: a POST with a body, answered by 201 with no headers and no body.\<close>

definition demo_post :: work where
  "demo_post = HttpWork ''POST'' ''http://x/y'' [(''Content-Length'', ''5'')] ''HELLO'' (fresh_conn [])"

definition demo_post_request :: bytes where
  "demo_post_request =
     out (snd (send_message demo_runtime (fresh_conn [])
            (http_request_header ''POST'' ''http://x/y'' [(''Content-Length'', ''5'')] ''HELLO'') ''HELLO''))"

definition demo_created :: bytes where
  "demo_created = out (snd (send_message demo_runtime (fresh_conn []) (response_header 201 [] []) []))"

definition demo_bad_gateway :: bytes where
  "demo_bad_gateway = out (snd (send_message demo_runtime (fresh_conn []) bad_gateway_header ''Bad Gateway''))"

section \<open>Properties of the traces of the serializer\<close>

fun is_done :: "event \<Rightarrow> bool" where
  "is_done (TaskDone w) = True"
| "is_done _ = False"

section \<open>The request lines the acceptor refuses\<close>


section \<open>Facts about sending, the tunnel and the worker\<close>

lemma read_message_after_send:
  assumes codec: "json_loads rt (json_dumps rt (JObj h)) = Inr (JObj h)"
      and len: "body_len_matches h p"
      and sent: "send_message rt c h p = (None, c\<lparr>out := out c @ wire\<rparr>)"
      and stream: "concat r = wire @ rest"
  shows "\<exists>r'. read_message rt r = (Inr (h, p), r') \<and> concat r' = rest"
proof -
  let ?hj = "json_dumps rt (JObj h)"
  from send_message_wire [OF sent] obtain pre where
    pk: "pack_u32 (length ?hj) = Inr pre" and w: "wire = pre @ ?hj @ p"
    by blast
  from unpack_pack [OF pk] have u: "unpack_u32 pre = length ?hj" and l: "length pre = 4" by simp_all
  have "whole_frame rt (concat r) h p rest"
    using codec payload_len_matches [OF len] u l
    by (simp add: whole_frame_def stream w Let_def)
  from read_message_whole [OF this] show ?thesis .
qed

lemma send_message_out: "\<exists>x. out (snd (send_message rt c h p)) = out c @ x"
  by (simp add: send_message_def conn_lost_def Let_def split: sum.splits)

lemma send_message_gone: "gone (snd (send_message rt c h p)) = gone c"
  by (simp add: send_message_def conn_lost_def Let_def split: sum.splits)

lemma send_message_open:
  assumes "\<not> closed c" and "\<not> gone c"
  shows "\<exists>x. snd (send_message rt c h p) = c\<lparr>out := out c @ x\<rparr>"
proof (cases "pack_u32 (length (json_dumps rt (JObj h)))")
  case (Inl e)
  then have "snd (send_message rt c h p) = c\<lparr>out := out c @ []\<rparr>"
    by (simp add: send_message_def Let_def)
  then show ?thesis by blast
next
  case (Inr pre)
  with assms have "snd (send_message rt c h p) = c\<lparr>out := out c @ pre @ json_dumps rt (JObj h) @ p\<rparr>"
    by (simp add: send_message_def Let_def)
  then show ?thesis by blast
qed

lemma send_message_frame:
  assumes "\<not> closed c" and "\<not> gone c"
  shows "send_message rt (c\<lparr>rd := x\<rparr>) h p =
           (fst (send_message rt c h p), (snd (send_message rt c h p))\<lparr>rd := x\<rparr>)"
  using assms by (simp add: send_message_def Let_def split: sum.splits)

lemma conn_read_fields:
  "conn_read c n = (chunk, c') \<Longrightarrow> out c' = out c \<and> closed c' = closed c \<and> gone c' = gone c"
  by (auto simp: conn_read_def conn_deliver_def Let_def split: if_splits list.splits)

lemma read_client_send_fields:
  "read_client_send rt u cl = (u', cl') \<Longrightarrow>
   out cl' = out cl \<and> closed cl' = closed cl \<and> gone cl' = gone cl \<and> gone u' = gone u \<and>
   (\<exists>x. out u' = out u @ x)"
proof (induction rt u cl arbitrary: u' cl' rule: read_client_send.induct)
  case (1 rt u cl)
  obtain chunk c1 where cr: "conn_read cl 4096 = (chunk, c1)" by (cases "conn_read cl 4096")
  note f = conn_read_fields [OF cr]
  show ?case
  proof (cases "chunk = []")
    case True
    obtain e u1 where sm: "send_message rt u data_end_header [] = (e, u1)"
      by (cases "send_message rt u data_end_header []")
    from send_message_out [of rt u data_end_header "[]"] sm
    obtain x where x: "out u1 = out u @ x" by auto
    from send_message_gone [of rt u data_end_header "[]"] sm
    have g: "gone u1 = gone u" by simp
    from send_message_out [of rt u1 data_end_header "[]"]
    obtain y where y: "out (snd (send_message rt u1 data_end_header [])) = out u1 @ y" by auto
    note g' = send_message_gone [of rt u1 data_end_header "[]"]
    from "1.prems" cr True sm x y g g' f show ?thesis
      by (cases e) (auto simp: read_client_send.simps [of rt u cl])
  next
    case False
    obtain e u1 where sm: "send_message rt u (data_header chunk) chunk = (e, u1)"
      by (cases "send_message rt u (data_header chunk) chunk")
    from send_message_out [of rt u "data_header chunk" chunk] sm
    obtain x where x: "out u1 = out u @ x" by auto
    from send_message_gone [of rt u "data_header chunk" chunk] sm
    have g: "gone u1 = gone u" by simp
    from send_message_out [of rt u1 data_end_header "[]"]
    obtain y where y: "out (snd (send_message rt u1 data_end_header [])) = out u1 @ y" by auto
    note g' = send_message_gone [of rt u1 data_end_header "[]"]
    show ?thesis
    proof (cases e)
      case None
      with "1.prems" cr False sm
      have "read_client_send rt u1 c1 = (u', cl')"
        by (simp add: read_client_send.simps [of rt u cl])
      from "1.IH" [OF cr [symmetric] False sm [symmetric] None this]
      have "out cl' = out c1 \<and> closed cl' = closed c1 \<and> gone cl' = gone c1 \<and> gone u' = gone u1 \<and>
            (\<exists>x. out u' = out u1 @ x)" by simp
      with f x g show ?thesis by auto
    next
      case (Some err)
      with "1.prems" cr False sm x y g g' f show ?thesis
        by (auto simp: read_client_send.simps [of rt u cl])
    qed
  qed
qed

lemma read_offshore_write_fields:
  "read_offshore_write rt u cl = (u', cl') \<Longrightarrow>
   rd cl' = rd cl \<and> buf cl' = buf cl \<and> closed cl' = closed cl \<and> gone cl' = gone cl \<and>
   buf u' = buf u \<and> out u' = out u \<and> closed u' = closed u \<and> gone u' = gone u \<and>
   (\<exists>x. out cl' = out cl @ x)"
proof (induction rt u cl arbitrary: u' cl' rule: read_offshore_write.induct)
  case (1 rt u cl)
  obtain res r' where rm: "read_message rt (rd u) = (res, r')" by (cases "read_message rt (rd u)")
  show ?case
  proof (cases res)
    case (Inl e)
    with "1.prems" rm show ?thesis by (auto simp: read_offshore_write.simps [of rt u cl])
  next
    case (Inr hb)
    obtain h b where hb: "hb = (h, b)" by (cases hb)
    show ?thesis
    proof (cases "map_of h ''type'' = Some (JStr ''DATA'')")
      case True
      let ?cl = "if b \<noteq> [] then conn_write cl b else cl"
      from "1.prems" rm Inr hb True
      have "read_offshore_write rt (u\<lparr>rd := r'\<rparr>) ?cl = (u', cl')"
        by (simp add: read_offshore_write.simps [of rt u cl])
      from "1.IH"(1) [OF rm [symmetric] Inr hb [symmetric] True this]
      have "rd cl' = rd ?cl \<and> buf cl' = buf ?cl \<and> closed cl' = closed ?cl \<and> gone cl' = gone ?cl \<and>
            buf u' = buf u \<and> out u' = out u \<and> closed u' = closed u \<and> gone u' = gone u \<and>
            (\<exists>x. out cl' = out ?cl @ x)" by simp
      then show ?thesis by (auto simp: conn_write_def)
    next
      case notdata: False
      show ?thesis
      proof (cases "map_of h ''type'' = Some (JStr ''DATA_END'')")
        case True
        with "1.prems" rm Inr hb notdata show ?thesis
          by (auto simp: read_offshore_write.simps [of rt u cl])
      next
        case False
        from "1.prems" rm Inr hb notdata False
        have "read_offshore_write rt (u\<lparr>rd := r'\<rparr>) cl = (u', cl')"
          by (simp add: read_offshore_write.simps [of rt u cl])
        from "1.IH"(2) [OF rm [symmetric] Inr hb [symmetric] notdata False this]
        show ?thesis by simp
      qed
    qed
  qed
qed

lemma ship_tunnel_fields:
  assumes "ship_tunnel rt u cl = (u', cl')"
  shows "closed cl' \<and> (\<exists>x. out cl' = out cl @ x) \<and> (\<exists>y. out u' = out u @ y)"
proof -
  obtain u1 cl1 where a: "read_client_send rt u cl = (u1, cl1)"
    by (cases "read_client_send rt u cl")
  obtain u2 cl2 where b: "read_offshore_write rt u1 cl1 = (u2, cl2)"
    by (cases "read_offshore_write rt u1 cl1")
  from assms a b have e: "u' = u2" "cl' = conn_close cl2" by (simp_all add: ship_tunnel_def)
  from read_client_send_fields [OF a] read_offshore_write_fields [OF b] e
  show ?thesis by (auto simp: conn_close_def)
qed

text \<open>
  The two sub-tasks of the Ship's tunnel commute as long as the uplink takes what is
  written to it: the first changes the client's reader and the uplink's writer only, the
  second the uplink's reader and the client's writer only.
\<close>

lemma conn_deliver_frame: "conn_deliver (cl\<lparr>out := y\<rparr>) = (conn_deliver cl)\<lparr>out := y\<rparr>"
  by (cases "dropWhile (\<lambda>ch. ch = []) (rd cl)")
     (simp_all add: conn_deliver_def del: dropWhile_eq_Nil_conv)

lemma conn_read_frame:
  "conn_read (cl\<lparr>out := y\<rparr>) n = (fst (conn_read cl n), (snd (conn_read cl n))\<lparr>out := y\<rparr>)"
  by (simp add: conn_read_def conn_deliver_frame Let_def)

lemma read_client_send_frame:
  "\<not> closed u \<Longrightarrow> \<not> gone u \<Longrightarrow>
   read_client_send rt (u\<lparr>rd := x\<rparr>) (cl\<lparr>out := y\<rparr>) =
     (case read_client_send rt u cl of (u', cl') \<Rightarrow> (u'\<lparr>rd := x\<rparr>, cl'\<lparr>out := y\<rparr>))"
proof (induction rt u cl rule: read_client_send.induct)
  case (1 rt u cl)
  note op = "1.prems"
  obtain chunk c1 where cr: "conn_read cl 4096 = (chunk, c1)" by (cases "conn_read cl 4096")
  then have cr': "conn_read (cl\<lparr>out := y\<rparr>) 4096 = (chunk, c1\<lparr>out := y\<rparr>)"
    by (simp add: conn_read_frame)
  have two: "snd (send_message rt (u1\<lparr>rd := x\<rparr>) data_end_header []) =
             (snd (send_message rt u1 data_end_header []))\<lparr>rd := x\<rparr>"
    if "\<not> closed u1" "\<not> gone u1" for u1
    using send_message_frame [OF that] by simp
  show ?case
  proof (cases "chunk = []")
    case True
    obtain e u1 where sm: "send_message rt u data_end_header [] = (e, u1)"
      by (cases "send_message rt u data_end_header []")
    from send_message_open [OF op, of rt data_end_header "[]"] sm op
    have o1: "\<not> closed u1" "\<not> gone u1" by auto
    from send_message_frame [OF op, of rt x data_end_header "[]"] sm
    have sm': "send_message rt (u\<lparr>rd := x\<rparr>) data_end_header [] = (e, u1\<lparr>rd := x\<rparr>)" by simp
    from cr cr' True sm sm' two [OF o1] show ?thesis
      by (cases e) (simp_all add: read_client_send.simps [of rt u cl]
            read_client_send.simps [of rt "u\<lparr>rd := x\<rparr>" "cl\<lparr>out := y\<rparr>"])
  next
    case False
    obtain e u1 where sm: "send_message rt u (data_header chunk) chunk = (e, u1)"
      by (cases "send_message rt u (data_header chunk) chunk")
    from send_message_open [OF op, of rt "data_header chunk" chunk] sm op
    have o1: "\<not> closed u1" "\<not> gone u1" by auto
    from send_message_frame [OF op, of rt x "data_header chunk" chunk] sm
    have sm': "send_message rt (u\<lparr>rd := x\<rparr>) (data_header chunk) chunk = (e, u1\<lparr>rd := x\<rparr>)"
      by simp
    show ?thesis
    proof (cases e)
      case None
      from "1.IH" [OF cr [symmetric] False sm [symmetric] None o1]
      have "read_client_send rt (u1\<lparr>rd := x\<rparr>) (c1\<lparr>out := y\<rparr>) =
         (case read_client_send rt u1 c1 of (u', cl') \<Rightarrow> (u'\<lparr>rd := x\<rparr>, cl'\<lparr>out := y\<rparr>))" .
      then show ?thesis using cr cr' False sm sm' None
        by (simp add: read_client_send.simps [of rt u cl]
              read_client_send.simps [of rt "u\<lparr>rd := x\<rparr>" "cl\<lparr>out := y\<rparr>"])
    next
      case (Some err)
      with cr cr' False sm sm' two [OF o1] show ?thesis
        by (simp add: read_client_send.simps [of rt u cl]
              read_client_send.simps [of rt "u\<lparr>rd := x\<rparr>" "cl\<lparr>out := y\<rparr>"])
    qed
  qed
qed

lemma read_client_send_open:
  "\<not> closed u \<Longrightarrow> \<not> gone u \<Longrightarrow> read_client_send rt u cl = (u', cl') \<Longrightarrow>
   rd u' = rd u \<and> buf u' = buf u \<and> closed u' = closed u"
proof (induction rt u cl arbitrary: u' cl' rule: read_client_send.induct)
  case (1 rt u cl)
  note op = "1.prems"(1,2)
  obtain chunk c1 where cr: "conn_read cl 4096 = (chunk, c1)" by (cases "conn_read cl 4096")
  have two: "\<exists>z. snd (send_message rt u1 data_end_header []) = u1\<lparr>out := out u1 @ z\<rparr>"
    if "\<not> closed u1" "\<not> gone u1" for u1
    using send_message_open [OF that] by simp
  show ?case
  proof (cases "chunk = []")
    case True
    obtain e u1 where sm: "send_message rt u data_end_header [] = (e, u1)"
      by (cases "send_message rt u data_end_header []")
    from send_message_open [OF op, of rt data_end_header "[]"] sm
    obtain z where z: "u1 = u\<lparr>out := out u @ z\<rparr>" by auto
    with op have o1: "\<not> closed u1" "\<not> gone u1" by simp_all
    from two [OF o1] obtain z' where
      z': "snd (send_message rt u1 data_end_header []) = u1\<lparr>out := out u1 @ z'\<rparr>" by blast
    from "1.prems"(3) cr True sm z z' show ?thesis
      by (cases e) (auto simp: read_client_send.simps [of rt u cl])
  next
    case False
    obtain e u1 where sm: "send_message rt u (data_header chunk) chunk = (e, u1)"
      by (cases "send_message rt u (data_header chunk) chunk")
    from send_message_open [OF op, of rt "data_header chunk" chunk] sm
    obtain z where z: "u1 = u\<lparr>out := out u @ z\<rparr>" by auto
    with op have o1: "\<not> closed u1" "\<not> gone u1" by simp_all
    from two [OF o1] obtain z' where
      z': "snd (send_message rt u1 data_end_header []) = u1\<lparr>out := out u1 @ z'\<rparr>" by blast
    show ?thesis
    proof (cases e)
      case None
      with "1.prems"(3) cr False sm
      have "read_client_send rt u1 c1 = (u', cl')"
        by (simp add: read_client_send.simps [of rt u cl])
      from "1.IH" [OF cr [symmetric] False sm [symmetric] None o1 this] z
      show ?thesis by simp
    next
      case (Some err)
      with "1.prems"(3) cr False sm z z' show ?thesis
        by (auto simp: read_client_send.simps [of rt u cl])
    qed
  qed
qed

lemma read_offshore_write_frame_rule:
  "read_offshore_write rt (u\<lparr>out := x\<rparr>) (cl\<lparr>rd := y, buf := z\<rparr>) =
     (case read_offshore_write rt u cl of (u', cl') \<Rightarrow> (u'\<lparr>out := x\<rparr>, cl'\<lparr>rd := y, buf := z\<rparr>))"
proof (induction rt u cl rule: read_offshore_write.induct)
  case (1 rt u cl)
  obtain res r' where rm: "read_message rt (rd u) = (res, r')" by (cases "read_message rt (rd u)")
  show ?case
  proof (cases res)
    case (Inl e)
    with rm show ?thesis
      by (simp add: read_offshore_write.simps [of rt u cl]
            read_offshore_write.simps [of rt "u\<lparr>out := x\<rparr>" "cl\<lparr>rd := y, buf := z\<rparr>"])
  next
    case (Inr hb)
    obtain h b where hb: "hb = (h, b)" by (cases hb)
    show ?thesis
    proof (cases "map_of h ''type'' = Some (JStr ''DATA'')")
      case True
      let ?cl = "if b \<noteq> [] then conn_write cl b else cl"
      from "1.IH"(1) [OF rm [symmetric] Inr hb [symmetric] True]
      have "read_offshore_write rt (u\<lparr>rd := r'\<rparr>\<lparr>out := x\<rparr>) (?cl\<lparr>rd := y, buf := z\<rparr>) =
         (case read_offshore_write rt (u\<lparr>rd := r'\<rparr>) ?cl of
            (u', cl') \<Rightarrow> (u'\<lparr>out := x\<rparr>, cl'\<lparr>rd := y, buf := z\<rparr>))" .
      moreover have "u\<lparr>rd := r'\<rparr>\<lparr>out := x\<rparr> = u\<lparr>out := x\<rparr>\<lparr>rd := r'\<rparr>" by simp
      moreover have "?cl\<lparr>rd := y, buf := z\<rparr> =
          (if b \<noteq> [] then conn_write (cl\<lparr>rd := y, buf := z\<rparr>) b else cl\<lparr>rd := y, buf := z\<rparr>)"
        by (simp add: conn_write_def)
      ultimately show ?thesis using rm Inr hb True
        by (simp add: read_offshore_write.simps [of rt u cl]
              read_offshore_write.simps [of rt "u\<lparr>out := x\<rparr>" "cl\<lparr>rd := y, buf := z\<rparr>"])
    next
      case notdata: False
      show ?thesis
      proof (cases "map_of h ''type'' = Some (JStr ''DATA_END'')")
        case True
        with rm Inr hb notdata show ?thesis
          by (simp add: read_offshore_write.simps [of rt u cl]
                read_offshore_write.simps [of rt "u\<lparr>out := x\<rparr>" "cl\<lparr>rd := y, buf := z\<rparr>"])
      next
        case False
        from "1.IH"(2) [OF rm [symmetric] Inr hb [symmetric] notdata False]
        have "read_offshore_write rt (u\<lparr>rd := r'\<rparr>\<lparr>out := x\<rparr>) (cl\<lparr>rd := y, buf := z\<rparr>) =
           (case read_offshore_write rt (u\<lparr>rd := r'\<rparr>) cl of
              (u', cl') \<Rightarrow> (u'\<lparr>out := x\<rparr>, cl'\<lparr>rd := y, buf := z\<rparr>))" .
        moreover have "u\<lparr>rd := r'\<rparr>\<lparr>out := x\<rparr> = u\<lparr>out := x\<rparr>\<lparr>rd := r'\<rparr>" by simp
        ultimately show ?thesis using rm Inr hb notdata False
          by (simp add: read_offshore_write.simps [of rt u cl]
                read_offshore_write.simps [of rt "u\<lparr>out := x\<rparr>" "cl\<lparr>rd := y, buf := z\<rparr>"])
      qed
    qed
  qed
qed

lemma ship_tunnel_commutes:
  assumes "\<not> closed u" and "\<not> gone u"
  shows "(case read_client_send rt u cl of (u1, cl1) \<Rightarrow> read_offshore_write rt u1 cl1) =
         (case read_offshore_write rt u cl of (u1, cl1) \<Rightarrow> read_client_send rt u1 cl1)"
proof -
  obtain ua ca where a: "read_client_send rt u cl = (ua, ca)" by (cases "read_client_send rt u cl")
  obtain ub cb where b: "read_offshore_write rt u cl = (ub, cb)"
    by (cases "read_offshore_write rt u cl")
  from read_client_send_fields [OF a] read_client_send_open [OF assms a]
  have ua: "ua = u\<lparr>out := out ua\<rparr>" and ca: "ca = cl\<lparr>rd := rd ca, buf := buf ca\<rparr>" by simp_all
  from read_offshore_write_fields [OF b]
  have ub: "ub = u\<lparr>rd := rd ub\<rparr>" and cb: "cb = cl\<lparr>out := out cb\<rparr>" by simp_all
  have opb: "\<not> closed ub" "\<not> gone ub" using read_offshore_write_fields [OF b] assms by simp_all
  have "read_offshore_write rt (u\<lparr>out := out ua\<rparr>) (cl\<lparr>rd := rd ca, buf := buf ca\<rparr>) =
          (ub\<lparr>out := out ua\<rparr>, cb\<lparr>rd := rd ca, buf := buf ca\<rparr>)"
    using read_offshore_write_frame_rule [where rt = rt and u = u and x = "out ua" and cl = cl
            and y = "rd ca" and z = "buf ca"] b by simp
  with ua ca have l: "read_offshore_write rt ua ca = (ub\<lparr>out := out ua\<rparr>, cb\<lparr>rd := rd ca, buf := buf ca\<rparr>)"
    by simp
  have "read_client_send rt (u\<lparr>rd := rd ub\<rparr>) (cl\<lparr>out := out cb\<rparr>) =
          (ua\<lparr>rd := rd ub\<rparr>, ca\<lparr>out := out cb\<rparr>)"
    using read_client_send_frame [OF assms, where rt = rt and x = "rd ub" and cl = cl
            and y = "out cb"] a by simp
  with ub cb have r: "read_client_send rt ub cb = (ua\<lparr>rd := rd ub\<rparr>, ca\<lparr>out := out cb\<rparr>)"
    by simp
  have e1: "ub\<lparr>out := out ua\<rparr> = ua\<lparr>rd := rd ub\<rparr>"
    by (subst ua, subst ub) simp
  have e2: "cb\<lparr>rd := rd ca, buf := buf ca\<rparr> = ca\<lparr>out := out cb\<rparr>"
    by (subst ca, subst cb) simp
  from l r e1 e2 a b show ?thesis by simp
qed

lemma py_str_int_502: "py_str_int 502 = ''502''"
  by code_simp

lemma bad_gateway_body_len: "body_len_matches bad_gateway_header ''Bad Gateway''"
  by code_simp

lemma write_response_bad_gateway:
  "write_response rt cl bad_gateway_header ''Bad Gateway'' =
     (None, cl\<lparr>out := out cl @ ''HTTP/1.1 502 OK'' @ CRLF @ ''Content-Length: 11'' @ CRLF @ CRLF
                          @ ''Bad Gateway'',
               closed := True\<rparr>)"
  by (simp add: write_response_def bad_gateway_header_def dict_get_def py_str_def py_str_int_502
        conn_write_def conn_close_def Let_def)

lemma worker_step_done:
  "filter is_done (trace (worker_step rt ws item)) = filter is_done (trace ws) @ [TaskDone item]"
  by (simp add: worker_step_def split: prod.splits option.splits)

lemma worker_done:
  "filter is_done (trace (worker rt ws q)) = filter is_done (trace ws) @ map TaskDone q"
  by (induction q arbitrary: ws) (simp_all add: worker_step_done)

text \<open>
  \<open>ensure_offshore\<close> dials exactly when there is no writer or the writer reports
  \<open>is_closing()\<close>; the state of the reader plays no part.
\<close>

lemma ensure_offshore_redials:
  "((uplink s = None \<or> (\<exists>u. uplink s = Some u \<and> closed u)) \<and> dials s = Inr r # ds \<longrightarrow>
      ensure_offshore s = (None, s\<lparr>uplink := Some (fresh_conn r), dials := ds\<rparr>)
      \<and> try_task rt s item = run_task rt (s\<lparr>uplink := Some (fresh_conn r), dials := ds\<rparr>) item)
   \<and> (uplink s = Some u \<and> \<not> closed u \<longrightarrow>
      ensure_offshore s = (None, s) \<and> try_task rt s item = run_task rt s item)"
  by (auto simp: ensure_offshore_def open_connection_def try_task_def)

text \<open>
  On \<open>DATA_END\<close> the Uplink-to-Target sub-task of the Offshore bridge closes the target's
  connection and ends.
\<close>

lemma ship_to_target_data_end:
  assumes "read_message rt (rd u) = (Inr (h, b), r')"
      and "map_of h ''type'' = Some (JStr ''DATA_END'')"
  shows "ship_to_target rt u tg = (u\<lparr>rd := r'\<rparr>, tg\<lparr>closed := True\<rparr>)"
  using assms
  by (auto simp: ship_to_target_step_def ship_to_target.simps [of rt u tg] conn_close_def)

section \<open>The framing codec: round trip and end-of-stream\<close>

text \<open>
  Claim C2 (framing round trip). Let the runtime's JSON codec give back the header \<open>h\<close>
  it wrote, and let \<open>body_len\<close> of \<open>h\<close> equal the length of the payload \<open>p\<close> (or be
  absent with \<open>p\<close> empty). If \<open>send_message\<close> wrote \<open>wire\<close> to a connection, then
  \<open>read_message\<close> on any stream that delivers \<open>wire\<close>, in whatever chunks, returns
  exactly \<open>(h, p)\<close> and leaves what followed \<open>wire\<close> in the stream.
\<close>

theorem framing_round_trip:
  assumes codec: "json_loads rt (json_dumps rt (JObj h)) = Inr (JObj h)"
      and len: "body_len_matches h p"
      and sent: "send_message rt c h p = (None, c\<lparr>out := out c @ wire\<rparr>)"
      and stream: "concat r = wire @ rest"
  shows "fst (read_message rt r) = Inr (h, p) \<and> concat (snd (read_message rt r)) = rest"
  using read_message_after_send [OF codec len sent stream] by auto

theorem framing_round_trip_witness:
  "json_loads demo_runtime (json_dumps demo_runtime (JObj (data_header ''abc'')))
     = Inr (JObj (data_header ''abc''))
   \<and> body_len_matches (data_header ''abc'') ''abc''
   \<and> send_message demo_runtime (fresh_conn []) (data_header ''abc'') ''abc''
     = (None, (fresh_conn [])\<lparr>out := out (fresh_conn []) @ demo_wire\<rparr>)
   \<and> concat [take 2 demo_wire, drop 2 demo_wire @ ''xy''] = demo_wire @ ''xy''
   \<and> fst (read_message demo_runtime [take 2 demo_wire, drop 2 demo_wire @ ''xy''])
     = Inr (data_header ''abc'', ''abc'')
   \<and> concat (snd (read_message demo_runtime [take 2 demo_wire, drop 2 demo_wire @ ''xy''])) = ''xy''"
proof -
  have c: "json_loads demo_runtime (json_dumps demo_runtime (JObj (data_header ''abc'')))
             = Inr (JObj (data_header ''abc''))"
    by code_simp
  have m: "body_len_matches (data_header ''abc'') ''abc''" by code_simp
  have s: "send_message demo_runtime (fresh_conn []) (data_header ''abc'') ''abc''
             = (None, (fresh_conn [])\<lparr>out := out (fresh_conn []) @ demo_wire\<rparr>)"
    by code_simp
  have k: "concat [take 2 demo_wire, drop 2 demo_wire @ ''xy''] = demo_wire @ ''xy''" by simp
  from framing_round_trip [OF c m s k] c m s k show ?thesis by blast
qed

text \<open>
  Claim C4 (end-of-stream inside a frame). If the bytes a stream still delivers stop
  inside the 4-byte length prefix, inside the header bytes or inside the payload that the
  header declares, \<open>read_message\<close> raises \<open>EOFError\<close> (the specification's LinkClosed)
  and returns no frame. Whenever \<open>read_message\<close> returns a frame, the stream started
  with exactly that whole frame, and what is left is what followed it.
\<close>

theorem read_message_eof_or_whole_frame:
  "(frame_truncated rt (concat r) \<longrightarrow> read_message rt r = (Inl EOFError, [])) \<and>
   (\<forall>h b r'. read_message rt r = (Inr (h, b), r') \<longrightarrow> whole_frame rt (concat r) h b (concat r'))"
  using read_message_truncated read_message_success by blast

theorem read_message_eof_or_whole_frame_witness:
  "frame_truncated demo_runtime (concat [take 3 demo_wire])
   \<and> read_message demo_runtime [take 3 demo_wire] = (Inl EOFError, [])
   \<and> frame_truncated demo_runtime (concat [take 3 demo_wire, take 17 (drop 3 demo_wire)])
   \<and> read_message demo_runtime [take 3 demo_wire, take 17 (drop 3 demo_wire)] = (Inl EOFError, [])
   \<and> frame_truncated demo_runtime (concat [take 37 demo_wire])
   \<and> read_message demo_runtime [take 37 demo_wire] = (Inl EOFError, [])
   \<and> read_message demo_runtime [demo_wire @ ''xy''] = (Inr (data_header ''abc'', ''abc''), [''xy''])
   \<and> whole_frame demo_runtime (concat [demo_wire @ ''xy'']) (data_header ''abc'') ''abc''
         (concat [''xy''])"
proof -
  have t1: "frame_truncated demo_runtime (concat [take 3 demo_wire])" by code_simp
  have t2: "frame_truncated demo_runtime (concat [take 3 demo_wire, take 17 (drop 3 demo_wire)])"
    by code_simp
  have t3: "frame_truncated demo_runtime (concat [take 37 demo_wire])" by code_simp
  have ok: "read_message demo_runtime [demo_wire @ ''xy'']
              = (Inr (data_header ''abc'', ''abc''), [''xy''])"
    by code_simp
  note th = read_message_eof_or_whole_frame
  from th [of demo_runtime "[take 3 demo_wire]"] t1
  have e1: "read_message demo_runtime [take 3 demo_wire] = (Inl EOFError, [])" by blast
  from th [of demo_runtime "[take 3 demo_wire, take 17 (drop 3 demo_wire)]"] t2
  have e2: "read_message demo_runtime [take 3 demo_wire, take 17 (drop 3 demo_wire)]
              = (Inl EOFError, [])"
    by blast
  from th [of demo_runtime "[take 37 demo_wire]"] t3
  have e3: "read_message demo_runtime [take 37 demo_wire] = (Inl EOFError, [])" by blast
  from th [of demo_runtime "[demo_wire @ ''xy'']"] ok
  have w: "whole_frame demo_runtime (concat [demo_wire @ ''xy'']) (data_header ''abc'') ''abc''
             (concat [''xy''])"
    by blast
  from t1 t2 t3 ok e1 e2 e3 w show ?thesis by blast
qed

section \<open>The acceptor: request lines that are refused, and some that are not\<close>




section \<open>The serializer: exceptions and redial\<close>

text \<open>
  Claim C10 (the worker survives its handlers). Whatever exception leaves the body of the
  worker's \<open>try\<close> (the dial of \<open>ensure_offshore\<close> or the handler itself), the worker
  records it, marks the item done and goes on with the rest of the queue from the state
  the failed handler left. Over any queue, every item is marked done, in order.
\<close>

theorem worker_survives_exceptions:
  "(try_task rt (link ws) item = (Some e, s', cl') \<longrightarrow>
      worker rt ws (item # q) =
        worker rt (ws\<lparr>link := s', trace := trace ws @ [Picked item, TaskError e, TaskDone item],
                      finished := finished ws @ [cl']\<rparr>) q)
   \<and> filter is_done (trace (worker rt ws q)) = filter is_done (trace ws) @ map TaskDone q"
  by (simp add: worker_done worker_step_def)

theorem worker_survives_exceptions_witness:
  "try_task demo_runtime \<lparr>uplink = None, dials = [Inl (OSError ''refused''), Inr [demo_response]]\<rparr>
     demo_post
     = (Some (OSError ''refused''), \<lparr>uplink = None, dials = [Inr [demo_response]]\<rparr>,
        client_of demo_post)
   \<and> worker demo_runtime
        \<lparr>link = \<lparr>uplink = None, dials = [Inl (OSError ''refused''), Inr [demo_response]]\<rparr>,
         trace = [], finished = []\<rparr> [demo_post, demo_get]
     = \<lparr>link = \<lparr>uplink = Some \<lparr>rd = [], buf = [], out = demo_request, closed = False, gone = False\<rparr>, dials = []\<rparr>,
        trace = [Picked demo_post, TaskError (OSError ''refused''), TaskDone demo_post,
                 Picked demo_get, TaskDone demo_get],
        finished = [client_of demo_post, \<lparr>rd = [], buf = [], out = demo_served, closed = True, gone = False\<rparr>]\<rparr>"
proof -
  let ?s = "\<lparr>uplink = None, dials = [Inl (OSError ''refused''), Inr [demo_response]]\<rparr>"
  let ?ws = "\<lparr>link = ?s, trace = [], finished = []\<rparr>"
  have f: "try_task demo_runtime (link ?ws) demo_post
     = (Some (OSError ''refused''), \<lparr>uplink = None, dials = [Inr [demo_response]]\<rparr>,
        client_of demo_post)"
    by code_simp
  have g: "worker demo_runtime
        (?ws\<lparr>link := \<lparr>uplink = None, dials = [Inr [demo_response]]\<rparr>,
             trace := trace ?ws @ [Picked demo_post, TaskError (OSError ''refused''), TaskDone demo_post],
             finished := finished ?ws @ [client_of demo_post]\<rparr>) [demo_get]
     = \<lparr>link = \<lparr>uplink = Some \<lparr>rd = [], buf = [], out = demo_request, closed = False, gone = False\<rparr>, dials = []\<rparr>,
        trace = [Picked demo_post, TaskError (OSError ''refused''), TaskDone demo_post,
                 Picked demo_get, TaskDone demo_get],
        finished = [client_of demo_post, \<lparr>rd = [], buf = [], out = demo_served, closed = True, gone = False\<rparr>]\<rparr>"
    by code_simp
  from worker_survives_exceptions [of demo_runtime ?ws demo_post "OSError ''refused''"
         "\<lparr>uplink = None, dials = [Inr [demo_response]]\<rparr>" "client_of demo_post" "[demo_get]"] f g
  have "worker demo_runtime ?ws [demo_post, demo_get]
     = \<lparr>link = \<lparr>uplink = Some \<lparr>rd = [], buf = [], out = demo_request, closed = False, gone = False\<rparr>, dials = []\<rparr>,
        trace = [Picked demo_post, TaskError (OSError ''refused''), TaskDone demo_post,
                 Picked demo_get, TaskDone demo_get],
        finished = [client_of demo_post, \<lparr>rd = [], buf = [], out = demo_served, closed = True, gone = False\<rparr>]\<rparr>"
    by simp
  with f show ?thesis by simp
qed

text \<open>
  Claim C5 (redial after the peer closed the uplink) does not hold of the code.
  \<open>ensure_offshore\<close> is meant to redial, but it looks only at the writer
  (\<open>is_closing()\<close>), and the peer's close does not make the writer closing: it reaches
  the Ship as end-of-stream on the uplink's reader. No handler closes the writer or
  forgets it. Two \<open>GET\<close> items are taken from the queue after the peer has closed the
  uplink, while a dial of the Offshore peer would succeed.

  In the first run the peer has only finished sending. Neither item redials (the dial stays
  unused): each request is written to the old connection, its response cannot be read, and
  each client gets the 502 of the HTTP handler.

  In the second run the peer is gone, and the write is answered by a reset. The first item
  does not redial: \<open>send_message\<close> raises \<open>ConnectionResetError\<close>, the worker catches it,
  and the client gets no response at all (its socket is not even closed). Only this failed
  write makes the writer closing, so that the second item redials and is served.
\<close>

theorem peer_close_not_redialled:
  "reader_read (rd (fresh_conn [])) 4 = ([], [])
   \<and> closed (fresh_conn []) = False
   \<and> worker demo_runtime
       \<lparr>link = \<lparr>uplink = Some (fresh_conn []), dials = [Inr [demo_response]]\<rparr>,
        trace = [], finished = []\<rparr> [demo_get, demo_get]
     = \<lparr>link = \<lparr>uplink = Some \<lparr>rd = [], buf = [], out = demo_request @ demo_request,
                                closed = False, gone = False\<rparr>,
                 dials = [Inr [demo_response]]\<rparr>,
        trace = [Picked demo_get, TaskDone demo_get, Picked demo_get, TaskDone demo_get],
        finished = [\<lparr>rd = [], buf = [], out = bad_gateway, closed = True, gone = False\<rparr>,
                    \<lparr>rd = [], buf = [], out = bad_gateway, closed = True, gone = False\<rparr>]\<rparr>
   \<and> worker demo_runtime
       \<lparr>link = \<lparr>uplink = Some \<lparr>rd = [], buf = [], out = [], closed = False, gone = True\<rparr>,
                 dials = [Inr [demo_response]]\<rparr>,
        trace = [], finished = []\<rparr> [demo_get, demo_get]
     = \<lparr>link = \<lparr>uplink = Some \<lparr>rd = [], buf = [], out = demo_request,
                                closed = False, gone = False\<rparr>,
                 dials = []\<rparr>,
        trace = [Picked demo_get, TaskError ConnectionResetError, TaskDone demo_get,
                 Picked demo_get, TaskDone demo_get],
        finished = [\<lparr>rd = [], buf = [], out = [], closed = False, gone = False\<rparr>,
                    \<lparr>rd = [], buf = [], out = demo_served, closed = True, gone = False\<rparr>]\<rparr>"
  by code_simp

section \<open>The HTTP path: the synthetic 502\<close>

text \<open>
  Claim C3 (502 synthesis). Whenever the outbound HTTP call fails, with whatever error,
  \<open>_handle_http_request\<close> of the Offshore peer writes exactly one frame: the header of
  type \<open>HTTPResponse\<close> with \<open>status_code\<close> 502, a \<open>Content-Length\<close> header \<open>11\<close> and
  \<open>body_len\<close> 11, and the 11 bytes \<open>Bad Gateway\<close> as payload. When this frame is what
  the Ship's HTTP handler reads next on the uplink, the client receives a response of
  status 502 with the header \<open>Content-Length: 11\<close> and the body \<open>Bad Gateway\<close>, and its
  socket is closed. (The frame is assumed to fit the length prefix, \<open>wire\<close> being its
  bytes, and to pass the JSON codec unchanged; the Offshore peer writes it to any uplink
  that is not lost. The Ship's request is assumed to be sent.)
\<close>

theorem bad_gateway_synthesis:
  assumes fails: "http_request rt method url (dict_get header ''headers'' (JObj [])) body = Inl e"
      and meth: "map_of header ''method'' = Some method"
      and url: "map_of header ''url'' = Some url"
      and fits: "send_message rt c0 bad_gateway_header ''Bad Gateway'' = (None, c0\<lparr>out := out c0 @ wire\<rparr>)"
      and codec: "json_loads rt (json_dumps rt (JObj bad_gateway_header)) = Inr (JObj bad_gateway_header)"
      and up: "uplink s = Some u"
      and req: "send_message rt u (http_request_header m t hs b) b = (None, u1)"
      and arrives: "concat (rd u) = wire @ rest"
  shows "bad_gateway_header =
           [(''type'', JStr ''HTTPResponse''), (''status_code'', JInt 502),
            (''headers'', JObj [(''Content-Length'', JStr ''11'')]), (''body_len'', JInt 11)]
         \<and> length ''Bad Gateway'' = 11
         \<and> offshore_handle_http_request rt c0 header body = (None, c0\<lparr>out := out c0 @ wire\<rparr>)
         \<and> (\<not> closed c \<and> \<not> gone c \<longrightarrow>
              offshore_handle_http_request rt c header body = (None, c\<lparr>out := out c @ wire\<rparr>))
         \<and> (\<exists>r'. concat r' = rest \<and>
               ship_handle_http_request rt s m t hs b cl =
                 (None, s\<lparr>uplink := Some (u1\<lparr>rd := r'\<rparr>)\<rparr>,
                  cl\<lparr>out := out cl @ ''HTTP/1.1 502 OK'' @ CRLF @ ''Content-Length: 11'' @ CRLF
                                   @ CRLF @ ''Bad Gateway'',
                     closed := True\<rparr>))"
proof -
  have off: "offshore_handle_http_request rt c0 header body = (None, c0\<lparr>out := out c0 @ wire\<rparr>)"
    using fails meth url fits by (simp add: offshore_handle_http_request_def)
  have any: "offshore_handle_http_request rt c header body = (None, c\<lparr>out := out c @ wire\<rparr>)"
    if "\<not> closed c" "\<not> gone c"
    using fails meth url send_message_on [OF fits that]
    by (simp add: offshore_handle_http_request_def)
  from send_message_sent [OF req] have same: "rd u1 = rd u" by auto
  from read_message_after_send [OF codec bad_gateway_body_len fits arrives]
  obtain r' where rm: "read_message rt (rd u) = (Inr (bad_gateway_header, ''Bad Gateway''), r')"
    and rest: "concat r' = rest" by blast
  have ty: "map_of bad_gateway_header ''type'' = Some (JStr ''HTTPResponse'')"
    by (simp add: bad_gateway_header_def)
  have "ship_handle_http_request rt s m t hs b cl =
          (None, s\<lparr>uplink := Some (u1\<lparr>rd := r'\<rparr>)\<rparr>,
           cl\<lparr>out := out cl @ ''HTTP/1.1 502 OK'' @ CRLF @ ''Content-Length: 11'' @ CRLF
                            @ CRLF @ ''Bad Gateway'',
              closed := True\<rparr>)"
    using up req rm ty same
    by (simp add: ship_handle_http_request_def write_response_bad_gateway)
  with off any rest show ?thesis by (auto simp: bad_gateway_header_def)
qed

theorem bad_gateway_synthesis_witness:
  "http_request demo_runtime (JStr ''GET'') (JStr ''http://example.com/'')
       (dict_get (http_request_header ''GET'' ''http://example.com/'' [(''Host'', ''example.com'')] [])
          ''headers'' (JObj [])) []
     = Inl (ClientError ''Cannot connect to host'')
   \<and> offshore_handle_http_request demo_runtime (fresh_conn [])
       (http_request_header ''GET'' ''http://example.com/'' [(''Host'', ''example.com'')] []) []
     = (None, \<lparr>rd = [], buf = [], out = demo_bad_gateway, closed = False, gone = False\<rparr>)
   \<and> fst (snd (ship_handle_http_request demo_runtime
              \<lparr>uplink = Some (fresh_conn [take 7 demo_bad_gateway, drop 7 demo_bad_gateway]), dials = []\<rparr>
              ''GET'' ''http://example.com/'' [(''Host'', ''example.com'')] [] (fresh_conn [])))
     = \<lparr>uplink = Some \<lparr>rd = [], buf = [], out = demo_request, closed = False, gone = False\<rparr>,
        dials = []\<rparr>
   \<and> snd (snd (ship_handle_http_request demo_runtime
              \<lparr>uplink = Some (fresh_conn [take 7 demo_bad_gateway, drop 7 demo_bad_gateway]), dials = []\<rparr>
              ''GET'' ''http://example.com/'' [(''Host'', ''example.com'')] [] (fresh_conn [])))
     = \<lparr>rd = [], buf = [],
        out = ''HTTP/1.1 502 OK'' @ CRLF @ ''Content-Length: 11'' @ CRLF @ CRLF @ ''Bad Gateway'',
        closed = True, gone = False\<rparr>"
proof -
  let ?hdr = "http_request_header ''GET'' ''http://example.com/'' [(''Host'', ''example.com'')] []"
  let ?u = "fresh_conn [take 7 demo_bad_gateway, drop 7 demo_bad_gateway]"
  let ?s = "\<lparr>uplink = Some ?u, dials = []\<rparr>"
  let ?call = "ship_handle_http_request demo_runtime ?s ''GET'' ''http://example.com/''
                 [(''Host'', ''example.com'')] [] (fresh_conn [])"
  have h1: "http_request demo_runtime (JStr ''GET'') (JStr ''http://example.com/'')
              (dict_get ?hdr ''headers'' (JObj [])) [] = Inl (ClientError ''Cannot connect to host'')"
    by code_simp
  have h2: "map_of ?hdr ''method'' = Some (JStr ''GET'')"
    and h3: "map_of ?hdr ''url'' = Some (JStr ''http://example.com/'')"
    by (simp_all add: http_request_header_def)
  have h4: "send_message demo_runtime (fresh_conn []) bad_gateway_header ''Bad Gateway''
              = (None, (fresh_conn [])\<lparr>out := out (fresh_conn []) @ demo_bad_gateway\<rparr>)"
    by code_simp
  have h5: "json_loads demo_runtime (json_dumps demo_runtime (JObj bad_gateway_header))
              = Inr (JObj bad_gateway_header)"
    by code_simp
  have h6: "uplink ?s = Some ?u" by simp
  have h7: "send_message demo_runtime ?u ?hdr [] = (None, ?u\<lparr>out := demo_request\<rparr>)" by code_simp
  have h8: "concat (rd ?u) = demo_bad_gateway @ []" by (simp add: fresh_conn_def)
  have v: "?call = (None,
                    \<lparr>uplink = Some \<lparr>rd = [], buf = [], out = demo_request, closed = False, gone = False\<rparr>,
                     dials = []\<rparr>,
                    \<lparr>rd = [], buf = [],
                     out = ''HTTP/1.1 502 OK'' @ CRLF @ ''Content-Length: 11'' @ CRLF @ CRLF
                             @ ''Bad Gateway'',
                     closed = True, gone = False\<rparr>)"
    by code_simp
  have w: "(fresh_conn [])\<lparr>out := out (fresh_conn []) @ demo_bad_gateway\<rparr>
             = \<lparr>rd = [], buf = [], out = demo_bad_gateway, closed = False, gone = False\<rparr>"
    by (simp add: fresh_conn_def)
  from bad_gateway_synthesis [OF h1 h2 h3 h4 h5 h6 h7 h8,
         where c = "fresh_conn []" and cl = "fresh_conn []"]
  have "offshore_handle_http_request demo_runtime (fresh_conn []) ?hdr []
          = (None, (fresh_conn [])\<lparr>out := out (fresh_conn []) @ demo_bad_gateway\<rparr>)"
    by blast
  with h1 v w show ?thesis by simp
qed

section \<open>The CONNECT path on the Ship\<close>

text \<open>
  Claim C8 (the CONNECT handshake). The handler sends one frame, the header
  \<open>{type: CONNECT, host, port}\<close> with no payload, and reads one frame. If that frame's
  type is not \<open>CONNECT_OK\<close>, it writes the 502 response to the client and closes the
  client's socket; nothing more is read from or written to the uplink. If it is
  \<open>CONNECT_OK\<close>, the handler's result is that of the tunnel started after
  \<open>HTTP/1.1 200 Connection Established\<close> and an empty line were written to the client:
  these bytes come first in what the client receives, and the \<open>CONNECT\<close> frame comes
  first in what the uplink receives. (It is assumed that the frame is sent, \<open>frame\<close>
  being its bytes, and that a frame can be read.)
\<close>

theorem ship_handle_connect_reply:
  assumes up: "uplink s = Some u"
      and sent: "send_message rt u (connect_header host port) [] = (None, u\<lparr>out := out u @ frame\<rparr>)"
      and got: "read_message rt (rd u) = (Inr (h, b), r')"
  shows "connect_header host port = [(''type'', JStr ''CONNECT''), (''host'', JStr host), (''port'', JInt port)]
         \<and> bad_gateway =
             ''HTTP/1.1 502 Bad Gateway'' @ CRLF @ ''Content-Length: 11'' @ CRLF @ CRLF @ ''Bad Gateway''
         \<and> connection_established = ''HTTP/1.1 200 Connection Established'' @ CRLF @ CRLF
         \<and> (map_of h ''type'' \<noteq> Some (JStr ''CONNECT_OK'') \<longrightarrow>
              ship_handle_connect rt s host port cl =
                (None, s\<lparr>uplink := Some (u\<lparr>rd := r', out := out u @ frame\<rparr>)\<rparr>,
                 cl\<lparr>out := out cl @ bad_gateway, closed := True\<rparr>))
         \<and> (map_of h ''type'' = Some (JStr ''CONNECT_OK'') \<longrightarrow>
              (\<exists>u' cl' x y.
                 ship_tunnel rt (u\<lparr>rd := r', out := out u @ frame\<rparr>)
                   (cl\<lparr>out := out cl @ connection_established\<rparr>) = (u', cl')
                 \<and> ship_handle_connect rt s host port cl = (None, s\<lparr>uplink := Some u'\<rparr>, cl')
                 \<and> out cl' = out cl @ connection_established @ x
                 \<and> out u' = out u @ frame @ y))"
proof -
  note sm = sent
  have bad: "map_of h ''type'' \<noteq> Some (JStr ''CONNECT_OK'') \<Longrightarrow>
      ship_handle_connect rt s host port cl =
        (None, s\<lparr>uplink := Some (u\<lparr>rd := r', out := out u @ frame\<rparr>)\<rparr>,
         cl\<lparr>out := out cl @ bad_gateway, closed := True\<rparr>)"
    using up sm got by (simp add: ship_handle_connect_def conn_write_def conn_close_def)
  have ok: "\<exists>u' cl' x y.
       ship_tunnel rt (u\<lparr>rd := r', out := out u @ frame\<rparr>)
         (cl\<lparr>out := out cl @ connection_established\<rparr>) = (u', cl')
       \<and> ship_handle_connect rt s host port cl = (None, s\<lparr>uplink := Some u'\<rparr>, cl')
       \<and> out cl' = out cl @ connection_established @ x
       \<and> out u' = out u @ frame @ y"
    if t: "map_of h ''type'' = Some (JStr ''CONNECT_OK'')"
  proof -
    have ord: "u\<lparr>rd := r', out := out u @ frame\<rparr> = u\<lparr>out := out u @ frame\<rparr>\<lparr>rd := r'\<rparr>"
      by simp
    obtain u' cl' where tn0: "ship_tunnel rt (u\<lparr>out := out u @ frame\<rparr>\<lparr>rd := r'\<rparr>)
         (cl\<lparr>out := out cl @ connection_established\<rparr>) = (u', cl')"
      by (cases "ship_tunnel rt (u\<lparr>out := out u @ frame\<rparr>\<lparr>rd := r'\<rparr>)
         (cl\<lparr>out := out cl @ connection_established\<rparr>)")
    then have tn: "ship_tunnel rt (u\<lparr>rd := r', out := out u @ frame\<rparr>)
         (cl\<lparr>out := out cl @ connection_established\<rparr>) = (u', cl')"
      by (simp only: ord)
    from ship_tunnel_fields [OF tn] obtain x y where
      "out cl' = out cl @ connection_established @ x" "out u' = out u @ frame @ y" by auto
    moreover have "ship_handle_connect rt s host port cl = (None, s\<lparr>uplink := Some u'\<rparr>, cl')"
      using up sm got t tn0 by (simp add: ship_handle_connect_def conn_write_def)
    ultimately show ?thesis using tn by blast
  qed
  from bad ok show ?thesis
    by (simp add: connect_header_def bad_gateway_def connection_established_def)
qed

theorem ship_handle_connect_reply_witness:
  "send_message demo_runtime (fresh_conn [demo_error, demo_data_x]) (connect_header ''host'' 443) []
     = (None, \<lparr>rd = [demo_error, demo_data_x], buf = [], out = demo_connect,
               closed = False, gone = False\<rparr>)
   \<and> read_message demo_runtime (rd (fresh_conn [demo_error, demo_data_x]))
     = (Inr (error_header (OSError ''refused''), []), [demo_data_x])
   \<and> ship_handle_connect demo_runtime \<lparr>uplink = Some (fresh_conn [demo_error, demo_data_x]), dials = []\<rparr>
       ''host'' 443 (fresh_conn [''AB''])
     = (None,
        \<lparr>uplink = Some \<lparr>rd = [demo_data_x], buf = [], out = demo_connect,
                         closed = False, gone = False\<rparr>,
         dials = []\<rparr>,
        \<lparr>rd = [''AB''], buf = [], out = bad_gateway, closed = True, gone = False\<rparr>)
   \<and> ship_handle_connect demo_runtime
       \<lparr>uplink = Some (fresh_conn [demo_connect_ok, demo_data_x, demo_data_end]), dials = []\<rparr>
       ''host'' 443 (fresh_conn [''AB''])
     = (None,
        \<lparr>uplink = Some \<lparr>rd = [], buf = [],
                         out = demo_connect
                               @ out (snd (send_message demo_runtime (fresh_conn [])
                                             (data_header ''AB'') ''AB''))
                               @ demo_data_end,
                         closed = False, gone = False\<rparr>,
         dials = []\<rparr>,
        \<lparr>rd = [], buf = [], out = connection_established @ ''x'', closed = True, gone = False\<rparr>)"
proof -
  let ?u = "fresh_conn [demo_error, demo_data_x]"
  let ?s = "\<lparr>uplink = Some ?u, dials = []\<rparr>"
  have a: "uplink ?s = Some ?u" by simp
  have b: "send_message demo_runtime ?u (connect_header ''host'' 443) []
             = (None, ?u\<lparr>out := out ?u @ demo_connect\<rparr>)"
    by code_simp
  have b': "?u\<lparr>out := out ?u @ demo_connect\<rparr>
              = \<lparr>rd = [demo_error, demo_data_x], buf = [], out = demo_connect,
                 closed = False, gone = False\<rparr>"
    by (simp add: fresh_conn_def)
  have c: "read_message demo_runtime (rd ?u)
             = (Inr (error_header (OSError ''refused''), []), [demo_data_x])"
    by code_simp
  have d: "map_of (error_header (OSError ''refused'')) ''type'' \<noteq> Some (JStr ''CONNECT_OK'')"
    by (simp add: error_header_def)
  have e: "s\<lparr>uplink := Some (?u\<lparr>rd := [demo_data_x], out := out ?u @ demo_connect\<rparr>)\<rparr>
             = \<lparr>uplink = Some \<lparr>rd = [demo_data_x], buf = [], out = demo_connect,
                                closed = False, gone = False\<rparr>,
                dials = dials s\<rparr>"
    for s :: ship
    by (simp add: fresh_conn_def)
  have f: "(fresh_conn [''AB''])\<lparr>out := out (fresh_conn [''AB'']) @ bad_gateway, closed := True\<rparr>
             = \<lparr>rd = [''AB''], buf = [], out = bad_gateway, closed = True, gone = False\<rparr>"
    by (simp add: fresh_conn_def)
  from ship_handle_connect_reply [OF a b c, of "fresh_conn [''AB'']"] d
  have "ship_handle_connect demo_runtime ?s ''host'' 443 (fresh_conn [''AB''])
     = (None, ?s\<lparr>uplink := Some (?u\<lparr>rd := [demo_data_x], out := out ?u @ demo_connect\<rparr>)\<rparr>,
        (fresh_conn [''AB''])\<lparr>out := out (fresh_conn [''AB'']) @ bad_gateway, closed := True\<rparr>)"
    by blast
  then have g: "ship_handle_connect demo_runtime ?s ''host'' 443 (fresh_conn [''AB''])
     = (None,
        \<lparr>uplink = Some \<lparr>rd = [demo_data_x], buf = [], out = demo_connect,
                         closed = False, gone = False\<rparr>,
         dials = []\<rparr>,
        \<lparr>rd = [''AB''], buf = [], out = bad_gateway, closed = True, gone = False\<rparr>)"
    by (simp only: e f ship.simps)
  have k: "ship_handle_connect demo_runtime
       \<lparr>uplink = Some (fresh_conn [demo_connect_ok, demo_data_x, demo_data_end]), dials = []\<rparr>
       ''host'' 443 (fresh_conn [''AB''])
     = (None,
        \<lparr>uplink = Some \<lparr>rd = [], buf = [],
                         out = demo_connect
                               @ out (snd (send_message demo_runtime (fresh_conn [])
                                             (data_header ''AB'') ''AB''))
                               @ demo_data_end,
                         closed = False, gone = False\<rparr>,
         dials = []\<rparr>,
        \<lparr>rd = [], buf = [], out = connection_established @ ''x'', closed = True, gone = False\<rparr>)"
    by code_simp
  from b b' c g k show ?thesis by simp
qed

section \<open>The Ship's Uplink-to-Client sub-task\<close>




section \<open>The Offshore CONNECT bridge\<close>

text \<open>
  Claim C7 (half-close on \<open>DATA_END\<close>) does not hold of the code. On \<open>DATA_END\<close> the
  Uplink-to-Target sub-task calls \<open>target_w.close()\<close>, which closes the target's
  connection in both directions, where the bridge needs to close its write side only (the
  Ship's tunnel, for its part, closes the client's socket only when both directions have
  ended). What the target sends after that is lost, so the other sub-task cannot go on
  reading until the target ends its stream.

  A \<open>CONNECT\<close> is answered by a target that replies \<open>BA\<close>, and the Ship sends
  \<open>DATA_END\<close>. In the first run the \<open>DATA_END\<close> is handled before \<open>BA\<close> has arrived:
  the uplink gets \<open>CONNECT_OK\<close> and \<open>DATA_END\<close> only, and \<open>BA\<close> is never read. In the
  second run \<open>BA\<close> has arrived, unread, when the target's connection is closed: it is
  still read and forwarded. In the third run the target is read before the \<open>DATA_END\<close> is
  handled, and \<open>BA\<close> is forwarded as well.
\<close>

theorem offshore_target_reply_lost:
  "offshore_handle_connect demo_runtime demo_dial [] (fresh_conn [demo_data_end])
       (connect_header ''host'' 443)
     = (None,
        \<lparr>rd = [], buf = [], out = demo_connect_ok @ demo_data_end, closed = False, gone = False\<rparr>,
        Some \<lparr>rd = [''BA''], buf = [], out = [], closed = True, gone = False\<rparr>)
   \<and> offshore_handle_connect demo_runtime demo_dial [TargetDelivers] (fresh_conn [demo_data_end])
       (connect_header ''host'' 443)
     = (None,
        \<lparr>rd = [], buf = [],
         out = demo_connect_ok
               @ out (snd (send_message demo_runtime (fresh_conn []) (data_header ''BA'') ''BA''))
               @ demo_data_end,
         closed = False, gone = False\<rparr>,
        Some \<lparr>rd = [], buf = [], out = [], closed = True, gone = False\<rparr>)
   \<and> offshore_handle_connect demo_runtime demo_dial [TargetToShip, TargetToShip, ShipToTarget]
       (fresh_conn [demo_data_end]) (connect_header ''host'' 443)
     = (None,
        \<lparr>rd = [], buf = [],
         out = demo_connect_ok
               @ out (snd (send_message demo_runtime (fresh_conn []) (data_header ''BA'') ''BA''))
               @ demo_data_end,
         closed = False, gone = False\<rparr>,
        Some \<lparr>rd = [], buf = [], out = [], closed = True, gone = False\<rparr>)"
  by code_simp

end
